theory Spec2Isabelle
  imports Complex_Main "HOL-Library.Word" "HOL-Library.Signed_Division"
begin

unbundle bit_operations_syntax

section \<open>Machine types\<close>

text \<open>
  The C sources compute with \<^verbatim>\<open>uint8_t\<close>, \<^verbatim>\<open>uint16_t\<close>, \<^verbatim>\<open>uint32_t\<close> and
  \<^verbatim>\<open>int32_t\<close>, modelled as words whose arithmetic wraps (an \<^verbatim>\<open>int32_t\<close> is a
  32-bit word read through \<open>sint\<close>), and with \<^verbatim>\<open>float\<close>.
  A \<^verbatim>\<open>float\<close> is modelled by a real number: rounding is not modelled. Where a
  function computes on with a float that is not finite, the modelled function
  ends with a \<open>fault\<close>: after a float division by zero (infinity or NaN in C)
  and after a float to integer cast out of the integer's range (undefined in C);
  an integer division by zero is a fault too. Where the code only stores such a
  float, the field that holds it is an \<open>xfloat\<close>, which has the values that are
  not finite.
\<close>

type_synonym u8 = "8 word"
type_synonym u16 = "16 word"
type_synonym u32 = "32 word"
type_synonym i32 = "32 word"
type_synonym float = real

datatype xfloat = Finite float | PlusInfinity | MinusInfinity | NaN

datatype fault = DivideByZero | FloatNotFinite | FloatToIntRange

section \<open>PID controller (driver.c)\<close>

text \<open>Gains and clamps of one controller; the fields \<^verbatim>\<open>pid()\<close> reads.\<close>

record pid_values_t =
  p_gain :: float
  i_gain :: float
  d_gain :: float
  i_max_error :: float
  d_max_error :: float
  max_error :: float

text \<open>
  \<^verbatim>\<open>pid_t\<close>. The fields \<^verbatim>\<open>deadband\<close>, \<^verbatim>\<open>error\<close> and \<^verbatim>\<open>max_error\<close> of the C struct
  are \<open>pid_deadband\<close>, \<open>pid_error\<close> and \<open>pid_max_error\<close> here.
\<close>

record pid_t =
  cfg :: pid_values_t
  pid_deadband :: float
  i_error :: float
  d_error :: float
  sample_rate_prev :: float
  pid_error :: float
  pid_max_error :: float
  enabled :: bool

text \<open>
  The clamp that \<^verbatim>\<open>pid()\<close> writes out three times, for the integral term, the
  derivative term and the output:
  \<^verbatim>\<open>if(m != 0.0f) { if (x > m) x = m; else if (x < -m) x = -m; }\<close>
\<close>

definition limit_error :: "float \<Rightarrow> float \<Rightarrow> float" where
  "limit_error m x = (if m \<noteq> 0 then (if x > m then m else if x < - m then - m else x) else x)"

text \<open>
  \<^verbatim>\<open>float pid (pid_t *pid, float command, float actual, float sample_rate)\<close>.
  The result is the returned correction and the updated struct. The two float
  divisions are \<open>sample_rate_prev / sample_rate\<close> (always) and
  \<open>sample_rate / sample_rate_prev\<close> (only when \<open>d_gain\<close> is not zero).
\<close>

definition pid :: "pid_t \<Rightarrow> float \<Rightarrow> float \<Rightarrow> float \<Rightarrow> fault + (float \<times> pid_t)" where
  "pid p command actual sample_rate =
    (let err = command - actual;
         pidres0 = p_gain (cfg p) * err
     in if sample_rate = 0 then Inl FloatNotFinite
        else
          let i2 = limit_error (i_max_error (cfg p))
                     (i_error p + err * (sample_rate_prev p / sample_rate));
              pidres1 = pidres0 + i_gain (cfg p) * i2
          in if d_gain (cfg p) \<noteq> 0 \<and> sample_rate_prev p = 0 then Inl FloatNotFinite
             else
               let p_error = limit_error (d_max_error (cfg p))
                               ((err - d_error p) * (sample_rate / sample_rate_prev p));
                   pidres2 = (if d_gain (cfg p) \<noteq> 0 then pidres1 + d_gain (cfg p) * p_error
                              else pidres1);
                   d2 = (if d_gain (cfg p) \<noteq> 0 then err else d_error p);
                   pidres = limit_error (max_error (cfg p)) pidres2
               in Inr (pidres, p\<lparr>i_error := i2, d_error := d2,
                                   sample_rate_prev := sample_rate, pid_error := pidres\<rparr>))"

text \<open>A sequence of calls on one controller: the corrections in call order and the final struct.\<close>

fun pid_calls :: "pid_t \<Rightarrow> (float \<times> float \<times> float) list \<Rightarrow> fault + (float list \<times> pid_t)" where
  "pid_calls p [] = Inr ([], p)"
| "pid_calls p ((command, actual, sample_rate) # rest) =
     (case pid p command actual sample_rate of
        Inl e \<Rightarrow> Inl e
      | Inr (out, p') \<Rightarrow>
          (case pid_calls p' rest of
             Inl e \<Rightarrow> Inl e
           | Inr (outs, p'') \<Rightarrow> Inr (out # outs, p'')))"

text \<open>Concrete controllers used to run the model.\<close>

definition example_cfg :: pid_values_t where
  "example_cfg = \<lparr>p_gain = 3, i_gain = 1, d_gain = 0, i_max_error = 20, d_max_error = 20,
                   max_error = 250\<rparr>"

definition example_pid :: pid_t where
  "example_pid = \<lparr>cfg = example_cfg, pid_deadband = 0, i_error = 0, d_error = 0,
                   sample_rate_prev = 1, pid_error = 0, pid_max_error = 0, enabled = True\<rparr>"

definition negative_bound_pid :: pid_t where
  "negative_bound_pid = example_pid\<lparr>cfg := example_cfg\<lparr>i_gain := 0, i_max_error := - 1, max_error := 0\<rparr>\<rparr>"


section \<open>Homing (limits.c)\<close>

text \<open>\<^verbatim>\<open>N_AXIS\<close> and \<^verbatim>\<open>AXES_BITMASK\<close> of nuts_bolts.h, for three axes.\<close>

definition N_AXIS :: nat where
  "N_AXIS = 3"

definition AXES_BITMASK :: u8 where
  "AXES_BITMASK = 7"

text \<open>
  The macros \<^verbatim>\<open>bit(n)\<close> (\<^verbatim>\<open>1UL << n\<close>) and \<^verbatim>\<open>bit_istrue(x, mask)\<close>
  (\<^verbatim>\<open>(x & mask) != 0\<close>), in the width of the \<^verbatim>\<open>axes_signals_t\<close> mask they are
  applied to; \<open>n\<close> is an axis index, below \<open>N_AXIS\<close>.
\<close>

definition bitn :: "nat \<Rightarrow> u8" where
  "bitn n = push_bit n 1"

definition bit_istrue :: "u8 \<Rightarrow> u8 \<Rightarrow> bool" where
  "bit_istrue x m = (x AND m \<noteq> 0)"

text \<open>
  \<^verbatim>\<open>lroundf\<close>: the nearest integer, halfway cases away from zero, stored in an
  \<^verbatim>\<open>int32_t\<close>. When the rounded value is outside the range of the result the C
  library returns an unspecified value; \<open>unspecified\<close> stands for what the target
  returns there, and nothing is assumed about it.
\<close>

definition lroundf :: "(float \<Rightarrow> i32) \<Rightarrow> float \<Rightarrow> i32" where
  "lroundf unspecified x =
     (let r = (if 0 \<le> x then \<lfloor>x + 1 / 2\<rfloor> else - \<lfloor>- x + 1 / 2\<rfloor>)
      in if - (2 ^ 31) \<le> r \<and> r < 2 ^ 31 then word_of_int r else unspecified x)"

text \<open>
  The settings the homing code reads (\<^verbatim>\<open>settings.homing.*\<close>,
  \<^verbatim>\<open>settings.max_travel[]\<close>, \<^verbatim>\<open>settings.steps_per_mm[]\<close>); the arrays have
  \<open>N_AXIS\<close> entries. \<open>homing_dir_mask\<close> is \<^verbatim>\<open>settings.homing.dir_mask.value\<close>.
\<close>

record settings_t =
  force_set_origin :: bool
  pulloff :: float
  homing_dir_mask :: u8
  locate_cycles :: nat
  seek_rate :: float
  feed_rate :: float
  max_travel :: "float list"
  steps_per_mm :: "float list"

text \<open>
  \<^verbatim>\<open>void limits_set_machine_positions (axes_signals_t cycle, bool add_pulloff)\<close>.
  The two \<^verbatim>\<open>do { ... --idx ... } while(idx)\<close> loops start at \<open>idx = N_AXIS\<close> and run
  the body for \<open>idx - 1\<close> down to \<open>0\<close>; the recursion below is on the value of
  \<open>idx\<close> before the decrement.
\<close>

fun set_origin_loop :: "u8 \<Rightarrow> nat \<Rightarrow> i32 list \<Rightarrow> i32 list" where
  "set_origin_loop cycle 0 sys_position = sys_position"
| "set_origin_loop cycle (Suc idx) sys_position =
     set_origin_loop cycle idx
       (if cycle AND bitn idx \<noteq> 0 then sys_position[idx := 0] else sys_position)"

fun set_travel_loop :: "(float \<Rightarrow> i32) \<Rightarrow> settings_t \<Rightarrow> float \<Rightarrow> u8 \<Rightarrow> nat \<Rightarrow> i32 list \<Rightarrow> i32 list" where
  "set_travel_loop unspecified settings pulloff_d cycle 0 sys_position = sys_position"
| "set_travel_loop unspecified settings pulloff_d cycle (Suc idx) sys_position =
     set_travel_loop unspecified settings pulloff_d cycle idx
       (if cycle AND bitn idx \<noteq> 0
        then sys_position[idx :=
               (if bit_istrue (homing_dir_mask settings) (bitn idx)
                then lroundf unspecified
                       ((max_travel settings ! idx + pulloff_d) * steps_per_mm settings ! idx)
                else lroundf unspecified (- pulloff_d * steps_per_mm settings ! idx))]
        else sys_position)"

definition limits_set_machine_positions :: "(float \<Rightarrow> i32) \<Rightarrow> settings_t \<Rightarrow> u8 \<Rightarrow> bool
    \<Rightarrow> i32 list \<Rightarrow> i32 list" where
  "limits_set_machine_positions unspecified settings cycle add_pulloff sys_position =
     (let pulloff_d = (if add_pulloff then pulloff settings else 0)
      in if force_set_origin settings
         then set_origin_loop cycle N_AXIS sys_position
         else set_travel_loop unspecified settings pulloff_d cycle N_AXIS sys_position)"

text \<open>
  Alarm codes written to \<^verbatim>\<open>sys_rt_exec_alarm\<close> by limits.c; \<open>Alarm_None\<close> is the
  value zero that \<^verbatim>\<open>if (sys_rt_exec_alarm)\<close> tests for.
\<close>

datatype alarm_code_t = Alarm_None | Alarm_HardLimit | Alarm_SoftLimit
  | Alarm_HomingFailReset | Alarm_HomingFailDoor | Alarm_FailPulloff | Alarm_HomingFailApproach

text \<open>
  The part of the global state that \<^verbatim>\<open>limits_homing_cycle\<close> reads and writes:
  \<open>aborted\<close> is the value of the macro \<^verbatim>\<open>ABORTED\<close> on entry, \<open>homed\<close> is
  \<^verbatim>\<open>sys.homed.mask\<close>, \<open>homing_axis_lock\<close> is \<^verbatim>\<open>sys.homing_axis_lock.mask\<close> and
  \<open>execute_sys_motion\<close> is the flag of \<^verbatim>\<open>sys.step_control\<close>. \<open>planned\<close> records the
  calls of \<^verbatim>\<open>plan_buffer_line\<close>, latest first, as target and feed rate.
  \<open>locate_cycles\<close> and the pass counter \<^verbatim>\<open>n_cycle\<close> are natural numbers: the width
  of \<^verbatim>\<open>uint_fast8_t\<close> is not modelled.
\<close>

record sys_t =
  aborted :: bool
  homed :: u8
  homing_axis_lock :: u8
  execute_sys_motion :: bool
  sys_position :: "i32 list"
  sys_rt_exec_alarm :: alarm_code_t
  planned :: "(float list \<times> float) list"

text \<open>
  What one iteration of the polling loop reads from outside: the limit switches
  (\<^verbatim>\<open>hal.limits_get_state().value\<close>, read once per iteration: at the top during an
  approach, in the pull-off test otherwise) and the three bits of
  \<^verbatim>\<open>sys_rt_exec_state\<close> the loop tests. The run of the cycle is driven by the list
  of these samples; when the list ends while the loop is still polling, the result
  says so.
\<close>

record poll_t =
  limit_state :: u8
  exec_reset :: bool
  exec_safety_door :: bool
  exec_cycle_complete :: bool

text \<open>
  The inner \<^verbatim>\<open>do { idx--; if ((axislock.mask & step_pin[idx]) && (limit_state & bit(idx)))
  axislock.mask &= ~bit(idx); } while(idx)\<close>, with \<^verbatim>\<open>step_pin[idx] = bit(idx)\<close>.
\<close>

fun lock_out_axes :: "u8 \<Rightarrow> nat \<Rightarrow> u8 \<Rightarrow> u8" where
  "lock_out_axes limits 0 axislock = axislock"
| "lock_out_axes limits (Suc idx) axislock =
     lock_out_axes limits idx
       (if axislock AND bitn idx \<noteq> 0 \<and> limits AND bitn idx \<noteq> 0
        then axislock AND NOT (bitn idx) else axislock)"

text \<open>
  The four \<^verbatim>\<open>system_set_exec_alarm\<close> tests of the exit routine, in the order of the
  source. \<^verbatim>\<open>system_set_exec_alarm\<close> is declared outside this file: it stores its
  argument in \<^verbatim>\<open>sys_rt_exec_alarm\<close>, so each call overwrites the one before.
\<close>

definition homing_exit_alarm :: "bool \<Rightarrow> u8 \<Rightarrow> poll_t \<Rightarrow> alarm_code_t \<Rightarrow> alarm_code_t" where
  "homing_exit_alarm approach cycle p alarm =
     (let a1 = (if exec_reset p then Alarm_HomingFailReset else alarm);
          a2 = (if exec_safety_door p then Alarm_HomingFailDoor else a1);
          a3 = (if \<not> approach \<and> limit_state p AND cycle \<noteq> 0 then Alarm_FailPulloff else a2);
          a4 = (if approach \<and> exec_cycle_complete p then Alarm_HomingFailApproach else a3)
      in a4)"

text \<open>
  The polling loop \<^verbatim>\<open>do { ... } while (axislock.mask & AXES_BITMASK)\<close>. It ends with
  \<open>Homing_Failed\<close> (the \<^verbatim>\<open>return false\<close>), or leaves the loop by \<^verbatim>\<open>break\<close> or by its
  condition (\<open>Homing_Continue\<close>, with the samples not yet read); \<open>Wait_Polling\<close> is
  the loop still polling when the samples have run out. Each result carries the
  value of \<^verbatim>\<open>axislock.mask\<close>.
\<close>

datatype wait_result = Wait_Polling u8 | Homing_Failed alarm_code_t u8 | Homing_Continue u8 "poll_t list"

fun homing_wait :: "bool \<Rightarrow> u8 \<Rightarrow> alarm_code_t \<Rightarrow> u8 \<Rightarrow> poll_t list \<Rightarrow> wait_result" where
  "homing_wait approach cycle alarm axislock [] = Wait_Polling axislock"
| "homing_wait approach cycle alarm axislock (p # polls) =
     (let axislock' = (if approach then lock_out_axes (limit_state p) N_AXIS axislock else axislock)
      in if exec_safety_door p \<or> exec_reset p \<or> exec_cycle_complete p
         then (let alarm' = homing_exit_alarm approach cycle p alarm
               in if alarm' \<noteq> Alarm_None then Homing_Failed alarm' axislock'
                  else Homing_Continue axislock' polls)
         else if axislock' AND AXES_BITMASK \<noteq> 0
              then homing_wait approach cycle alarm axislock' polls
              else Homing_Continue axislock' polls)"

text \<open>
  The loop that sets the targets of one pass: for each axis of the cycle it counts
  the axis, zeroes its \<^verbatim>\<open>sys_position\<close>, sets its target from the homing direction
  and the approach flag, and adds its bit to \<^verbatim>\<open>axislock\<close>. The state threaded
  through is (\<open>n_active_axis\<close>, \<open>sys_position\<close>, \<open>target\<close>, \<open>axislock\<close>).
\<close>

fun set_targets :: "settings_t \<Rightarrow> u8 \<Rightarrow> bool \<Rightarrow> float \<Rightarrow> nat
    \<Rightarrow> nat \<times> i32 list \<times> float list \<times> u8 \<Rightarrow> nat \<times> i32 list \<times> float list \<times> u8" where
  "set_targets settings cycle approach travel 0 acc = acc"
| "set_targets settings cycle approach travel (Suc idx) (n_active_axis, position, target, axislock) =
     set_targets settings cycle approach travel idx
       (if bit_istrue cycle (bitn idx)
        then (n_active_axis + 1,
              position[idx := 0],
              target[idx := (if bit_istrue (homing_dir_mask settings) (bitn idx)
                             then (if approach then - travel else travel)
                             else (if approach then travel else - travel))],
              axislock OR bitn idx)
        else (n_active_axis, position, target, axislock))"

text \<open>
  The first loop of the function: the search distance, \<^verbatim>\<open>max_travel = max(max_travel,
  (-HOMING_AXIS_SEARCH_SCALAR) * settings.max_travel[idx])\<close> over the axes of the cycle.
\<close>

definition HOMING_AXIS_SEARCH_SCALAR :: float where
  "HOMING_AXIS_SEARCH_SCALAR = 3 / 2"

definition HOMING_AXIS_LOCATE_SCALAR :: float where
  "HOMING_AXIS_LOCATE_SCALAR = 5"

fun search_travel :: "settings_t \<Rightarrow> u8 \<Rightarrow> nat \<Rightarrow> float \<Rightarrow> float" where
  "search_travel settings cycle 0 travel = travel"
| "search_travel settings cycle (Suc idx) travel =
     search_travel settings cycle idx
       (if bit_istrue cycle (bitn idx)
        then max travel ((- HOMING_AXIS_SEARCH_SCALAR) * max_travel settings ! idx)
        else travel)"

text \<open>
  The result of the cycle: \<open>Homing_Returned\<close> with the value returned and the
  state, or \<open>Homing_Polling\<close> when the samples have run out while a pass is
  still polling, with the approach flag of that pass and the state at that point.
\<close>

datatype homing_result = Homing_Polling bool sys_t | Homing_Returned bool sys_t

text \<open>
  The outer \<^verbatim>\<open>do { ... } while (n_cycle-- > 0)\<close>: the argument \<open>n_cycle\<close> is the
  counter on entry to the pass. \<open>mpos\<close> stands for
  \<^verbatim>\<open>system_convert_array_steps_to_mpos\<close>, which is not part of this file. The calls
  that only drive the motion (\<^verbatim>\<open>st_prep_buffer\<close>, \<^verbatim>\<open>st_wake_up\<close>, \<^verbatim>\<open>st_reset\<close>,
  \<^verbatim>\<open>hal.delay_ms\<close>, \<^verbatim>\<open>mc_reset\<close>, \<^verbatim>\<open>protocol_execute_realtime\<close>) leave no trace in
  the modelled fields: on failure \<open>sys_rt_exec_alarm\<close> holds the alarm the cycle has
  set, which \<^verbatim>\<open>protocol_execute_realtime\<close> then reports. During an approach the
  loop copies \<^verbatim>\<open>axislock.mask\<close> to \<^verbatim>\<open>sys.homing_axis_lock.mask\<close> in every iteration.
\<close>

fun homing_passes :: "(float \<Rightarrow> i32) \<Rightarrow> settings_t \<Rightarrow> (i32 list \<Rightarrow> float list) \<Rightarrow> u8 \<Rightarrow> nat \<Rightarrow> bool
    \<Rightarrow> float \<Rightarrow> float \<Rightarrow> sys_t \<Rightarrow> poll_t list \<Rightarrow> homing_result" where
  "homing_passes unspecified settings mpos cycle n_cycle approach travel homing_rate sys polls =
     (case set_targets settings cycle approach travel N_AXIS
             (0, sys_position sys, mpos (sys_position sys), 0) of
        (n_active_axis, position, target, axislock) \<Rightarrow>
          (let rate = homing_rate * sqrt (real n_active_axis);
               sys1 = sys\<lparr>sys_position := position, homing_axis_lock := axislock,
                          planned := (target, rate) # planned sys, execute_sys_motion := True\<rparr>
           in case homing_wait approach cycle (sys_rt_exec_alarm sys1) axislock polls of
                Wait_Polling lock \<Rightarrow> Homing_Polling approach (sys1\<lparr>homing_axis_lock := lock\<rparr>)
              | Homing_Failed alarm lock \<Rightarrow>
                  Homing_Returned False (sys1\<lparr>homing_axis_lock := lock, sys_rt_exec_alarm := alarm\<rparr>)
              | Homing_Continue lock polls' \<Rightarrow>
                  (let sys2 = sys1\<lparr>homing_axis_lock := lock\<rparr>;
                       approach' = (\<not> approach);
                       travel' = (if approach' then pulloff settings * HOMING_AXIS_LOCATE_SCALAR
                                  else pulloff settings);
                       rate' = (if approach' then feed_rate settings else seek_rate settings)
                   in case n_cycle of
                        Suc n \<Rightarrow> homing_passes unspecified settings mpos cycle n approach' travel' rate'
                                   sys2 polls'
                      | 0 \<Rightarrow>
                          Homing_Returned True
                            (sys2\<lparr>sys_position :=
                                     limits_set_machine_positions unspecified settings cycle True
                                       (sys_position sys2),
                                   execute_sys_motion := False,
                                   homed := homed sys2 OR cycle\<rparr>))))"

text \<open>\<^verbatim>\<open>static bool limits_homing_cycle (axes_signals_t cycle)\<close>.\<close>

definition limits_homing_cycle :: "(float \<Rightarrow> i32) \<Rightarrow> settings_t \<Rightarrow> (i32 list \<Rightarrow> float list) \<Rightarrow> u8
    \<Rightarrow> sys_t \<Rightarrow> poll_t list \<Rightarrow> homing_result" where
  "limits_homing_cycle unspecified settings mpos cycle sys polls =
     (if aborted sys then Homing_Returned False sys
      else homing_passes unspecified settings mpos cycle (2 * locate_cycles settings + 1) True
             (search_travel settings cycle N_AXIS 0) (seek_rate settings) sys polls)"

declare homing_passes.simps [simp del]

text \<open>Concrete settings, state and samples used to run the model.\<close>

definition example_settings :: settings_t where
  "example_settings = \<lparr>force_set_origin = False, pulloff = 1, homing_dir_mask = 0,
      locate_cycles = 0, seek_rate = 500, feed_rate = 25,
      max_travel = [- 200, - 200, - 200], steps_per_mm = [250, 250, 250]\<rparr>"

definition example_sys :: sys_t where
  "example_sys = \<lparr>aborted = False, homed = 2, homing_axis_lock = 0, execute_sys_motion = False,
      sys_position = [10, 20, 30], sys_rt_exec_alarm = Alarm_None, planned = []\<rparr>"

definition poll_idle :: poll_t where
  "poll_idle = \<lparr>limit_state = 0, exec_reset = False, exec_safety_door = False,
      exec_cycle_complete = False\<rparr>"

definition example_mpos :: "i32 list \<Rightarrow> float list" where
  "example_mpos position = map (\<lambda>steps. real_of_int (sint steps) / 250) position"

definition example_unspecified :: "float \<Rightarrow> i32" where
  "example_unspecified x = 0"


section \<open>Spindle encoder (driver.c)\<close>

text \<open>
  \<^verbatim>\<open>spindle_encoder_t\<close>. The fields \<^verbatim>\<open>rpm\<close> and \<^verbatim>\<open>error\<close> of the C struct are
  \<open>enc_rpm\<close> and \<open>enc_error\<close> here.
\<close>

record spindle_encoder_t =
  ppr :: u32
  rpm_factor :: float
  pulse_distance :: float
  timer_resolution :: float
  enc_rpm :: xfloat
  timer_value_index :: u32
  timer_value_last :: u32
  tpp :: u32
  maximum_tt :: u32
  pulse_counter_trigger :: u32
  pulse_counter_last :: u16
  pulse_counter_index :: u16
  enc_error :: bool

text \<open>
  \<^verbatim>\<open>spindle_data_t\<close> is declared outside this file; these are the fields the driver
  uses. \<open>rpm\<close> takes the value of \<^verbatim>\<open>spindle_encoder.rpm\<close> and is an \<open>xfloat\<close> as
  that field is.
\<close>

record spindle_data_t =
  rpm :: xfloat
  rpm_programmed :: float
  rpm_low_limit :: float
  rpm_high_limit :: float
  angular_position :: float
  index_count :: u32
  pulse_count :: u32

datatype spindle_data_request_t = SpindleData_Counters | SpindleData_RPM | SpindleData_AngularPosition

text \<open>
  \<^verbatim>\<open>inline static float spindle_calc_rpm (uint32_t tpp)\<close>: the float division
  \<^verbatim>\<open>spindle_encoder.rpm_factor / (float)tpp\<close>. With \<open>tpp\<close> zero the quotient is not
  finite: an infinity with the sign of \<open>rpm_factor\<close>, or NaN when \<open>rpm_factor\<close> is
  zero.
\<close>

definition spindle_calc_rpm :: "spindle_encoder_t \<Rightarrow> u32 \<Rightarrow> xfloat" where
  "spindle_calc_rpm enc t =
     (if t \<noteq> 0 then Finite (rpm_factor enc / real (unat t))
      else if 0 < rpm_factor enc then PlusInfinity
      else if rpm_factor enc < 0 then MinusInfinity
      else NaN)"

text \<open>
  The difference of two \<^verbatim>\<open>uint16_t\<close> counter values: both are promoted to \<^verbatim>\<open>int\<close>,
  so the difference is not reduced modulo \<open>2 ^ 16\<close>.
\<close>

definition counter_diff :: "u16 \<Rightarrow> u16 \<Rightarrow> int" where
  "counter_diff a b = uint a - uint b"

text \<open>
  \<^verbatim>\<open>static spindle_data_t spindleGetData (spindle_data_request_t request)\<close>. The
  arguments \<open>timer_value\<close> and \<open>counter\<close> are the registers \<^verbatim>\<open>RPM_TIMER->VALUE\<close> and
  \<^verbatim>\<open>RPM_COUNTER->R\<close> as read by the call; \<open>pid_enabled\<close> is
  \<^verbatim>\<open>spindle_control.pid.enabled\<close> (false in a build without
  \<^verbatim>\<open>SPINDLE_RPM_CONTROLLED\<close>). The result is the updated \<^verbatim>\<open>spindle_data\<close>, which is
  also what the function returns.
\<close>

definition spindleGetData :: "spindle_data_request_t \<Rightarrow> u32 \<Rightarrow> u16 \<Rightarrow> bool
    \<Rightarrow> spindle_encoder_t \<Rightarrow> spindle_data_t \<Rightarrow> spindle_data_t" where
  "spindleGetData request timer_value counter pid_enabled enc data =
     (let delta0 = timer_value_last enc - timer_value;
          stopped = (tpp enc = 0 \<or> delta0 > maximum_tt enc);
          data1 = (if stopped then data\<lparr>rpm := Finite 0\<rparr> else data);
          rpm_timer_delta =
            (if stopped then word_of_int (counter_diff counter (pulse_counter_last enc)) * tpp enc
             else delta0)
      in case request of
           SpindleData_Counters \<Rightarrow>
             data1\<lparr>pulse_count := pulse_count data1
                      + word_of_int (counter_diff counter (pulse_counter_last enc))\<rparr>
         | SpindleData_RPM \<Rightarrow>
             (if \<not> stopped
              then data1\<lparr>rpm := (if pid_enabled then enc_rpm enc
                                  else spindle_calc_rpm enc (tpp enc))\<rparr>
              else data1)
         | SpindleData_AngularPosition \<Rightarrow>
             data1\<lparr>angular_position :=
                      real (unat (index_count data1))
                      + (real_of_int (counter_diff (pulse_counter_last enc) (pulse_counter_index enc))
                         + (if tpp enc = 0 then 0
                            else real (unat rpm_timer_delta) / real (unat (tpp enc))))
                        * pulse_distance enc\<rparr>)"

section \<open>Stepper pulse start and spindle synchronisation (driver.c)\<close>

datatype pid_state_t = PIDState_Disabled | PIDState_Pending | PIDState_Active

text \<open>
  The function that \<^verbatim>\<open>hal.stepper_pulse_start\<close> points to.
\<close>

datatype pulse_start_t = PulseStart_Normal | PulseStart_Delayed | PulseStart_Synchronized

text \<open>
  \<^verbatim>\<open>spindle_sync_t\<close>. The fields \<^verbatim>\<open>steps_per_mm\<close> and \<^verbatim>\<open>pid\<close> of the C struct are
  \<open>sync_steps_per_mm\<close> and \<open>sync_pid\<close> here; \<^verbatim>\<open>uint_fast8_t\<close> is 32 bits wide.
\<close>

record spindle_sync_t =
  block_start :: float
  prev_pos :: float
  sync_steps_per_mm :: float
  programmed_rate :: float
  min_cycles_per_tick :: u32
  stepper_pulse_start_normal :: pulse_start_t
  segment_id :: u32
  sync_pid :: pid_t

text \<open>
  The fields of \<^verbatim>\<open>stepper_t\<close>, of the segment \<^verbatim>\<open>stepper->exec_segment\<close> and of the
  block \<^verbatim>\<open>stepper->exec_block\<close> that the pulse start functions use (the types are
  declared outside this file). The segment's \<^verbatim>\<open>id\<close> is \<open>seg_id\<close>, the block's
  \<^verbatim>\<open>programmed_rate\<close> and \<^verbatim>\<open>steps_per_mm\<close> are \<open>block_programmed_rate\<close> and
  \<open>block_steps_per_mm\<close>.
\<close>

record segment_t =
  seg_id :: u32
  spindle_sync :: bool
  cruising :: bool
  cycles_per_tick :: u32
  n_step :: u32
  target_position :: float

record st_block_t =
  block_programmed_rate :: float
  block_steps_per_mm :: float

record stepper_t =
  new_block :: bool
  step_count :: u32
  step_outbits :: u8
  dir_outbits :: u8
  exec_segment :: segment_t
  exec_block :: st_block_t

text \<open>
  The globals of the driver and the registers it writes. \<open>sync\<close> is the static
  variable of \<^verbatim>\<open>stepperPulseStartSynchronized\<close>; \<open>spid\<close> and \<open>tpp_sum\<close> are the
  static variables \<^verbatim>\<open>spid\<close> and \<^verbatim>\<open>tpp\<close> of \<^verbatim>\<open>SysTick_Handler\<close>; \<open>pulse_start\<close>
  is \<^verbatim>\<open>hal.stepper_pulse_start\<close>; \<open>pid_state\<close> and \<open>control_pid\<close> are the two fields
  of \<^verbatim>\<open>spindle_control\<close>. Of the registers, \<open>step_out\<close> and \<open>dir_out\<close> are the last
  arguments of \<^verbatim>\<open>set_step_outputs\<close> and \<^verbatim>\<open>set_dir_outputs\<close>, \<open>pulse_timer_started\<close>
  records the start of \<^verbatim>\<open>PULSE_TIMER\<close>, \<open>stepper_timer_load\<close> is
  \<^verbatim>\<open>STEPPER_TIMER->LOAD\<close>, \<open>stepper_timer_enabled\<close> the enable bits of
  \<^verbatim>\<open>STEPPER_TIMER->CONTROL\<close>, \<open>rpm_counter_ccr0\<close> is \<^verbatim>\<open>RPM_COUNTER->CCR[0]\<close> and
  \<open>spindle_pwm_ccr2\<close> is \<^verbatim>\<open>SPINDLE_PWM_TIMER->CCR[2]\<close>.
\<close>

record driver_t =
  spindle_encoder :: spindle_encoder_t
  spindle_data :: spindle_data_t
  spindle_tracker :: spindle_sync_t
  pid_state :: pid_state_t
  control_pid :: pid_t
  pid_count :: u32
  spid :: u32
  tpp_sum :: u32
  sync :: bool
  pulse_start :: pulse_start_t
  next_step_outbits :: u8
  step_out :: u8
  dir_out :: u8
  pulse_timer_started :: bool
  stepper_timer_load :: u32
  stepper_timer_enabled :: bool
  rpm_counter_ccr0 :: u16
  spindle_pwm_ccr2 :: u16

text \<open>\<^verbatim>\<open>stepperWakeUp\<close>, \<^verbatim>\<open>stepperGoIdle\<close> and \<^verbatim>\<open>stepperCyclesPerTick\<close>.\<close>

definition stepperWakeUp :: "driver_t \<Rightarrow> driver_t" where
  "stepperWakeUp drv =
     drv\<lparr>stepper_timer_load := 0x000FFFFF, stepper_timer_enabled := True,
          spindle_tracker := (spindle_tracker drv)\<lparr>segment_id := 0\<rparr>\<rparr>"

definition stepperGoIdle :: "bool \<Rightarrow> driver_t \<Rightarrow> driver_t" where
  "stepperGoIdle clear_signals drv =
     (let drv1 = drv\<lparr>stepper_timer_enabled := False\<rparr>
      in if clear_signals then drv1\<lparr>step_out := 0, dir_out := 0\<rparr> else drv1)"

definition stepperCyclesPerTick :: "u32 \<Rightarrow> driver_t \<Rightarrow> driver_t" where
  "stepperCyclesPerTick cpt drv =
     drv\<lparr>stepper_timer_load := (if cpt < push_bit 20 1 then cpt else 0x000FFFFF)\<rparr>"

text \<open>
  The conversion \<^verbatim>\<open>(int32_t)x\<close> of a float: truncation towards zero, undefined
  outside the range of \<^verbatim>\<open>int32_t\<close>. An \<^verbatim>\<open>int32_t\<close> is a 32-bit word read through
  \<open>sint\<close>.
\<close>

definition float_to_int32 :: "float \<Rightarrow> fault + u32" where
  "float_to_int32 x =
     (let t = (if 0 \<le> x then \<lfloor>x\<rfloor> else \<lceil>x\<rceil>)
      in if - (2 ^ 31) \<le> t \<and> t < 2 ^ 31 then Inr (word_of_int t) else Inl FloatToIntRange)"

text \<open>
  The two integer lines of the correction:
  \<^verbatim>\<open>int32_t ticks = (((int32_t)stepper->step_count + step_delta) *
  (int32_t)stepper->exec_segment->cycles_per_tick) / (int32_t)stepper->step_count;\<close>
  \<^verbatim>\<open>stepper->exec_segment->cycles_per_tick = (uint32_t)max(ticks,
  (int32_t)spindle_tracker.min_cycles_per_tick);\<close>
  The sum and the product wrap as on the target; the division truncates towards
  zero and has no guard: with a step count of zero it is the fault \<open>DivideByZero\<close>.
  \<^verbatim>\<open>max(a,b)\<close> is the macro \<^verbatim>\<open>(((a) > (b)) ? (a) : (b))\<close>, on signed values.
\<close>

definition sync_cycles_per_tick :: "u32 \<Rightarrow> u32 \<Rightarrow> u32 \<Rightarrow> u32 \<Rightarrow> fault + u32" where
  "sync_cycles_per_tick count step_delta cpt min_cpt =
     (if count = 0 then Inl DivideByZero
      else let ticks = (word_of_int (sint ((count + step_delta) * cpt) sdiv sint count) :: u32)
           in Inr (if min_cpt <s ticks then ticks else min_cpt))"

text \<open>
  The value that \<^verbatim>\<open>settings_changed\<close> stores in \<^verbatim>\<open>spindle_tracker.min_cycles_per_tick\<close>:
  \<^verbatim>\<open>hal.f_step_timer / 1000000UL * (settings->steppers.pulse_microseconds * 2 +
  settings->steppers.pulse_delay_microseconds)\<close>, with the two pulse settings as
  8-bit values (they are declared outside this file).
\<close>

definition settings_min_cycles_per_tick :: "u32 \<Rightarrow> u8 \<Rightarrow> u8 \<Rightarrow> u32" where
  "settings_min_cycles_per_tick f_step_timer pulse_microseconds pulse_delay_microseconds =
     f_step_timer div 1000000 * (ucast pulse_microseconds * 2 + ucast pulse_delay_microseconds)"

text \<open>
  The correction of a cruising segment, the \<^verbatim>\<open>if(stepper->exec_segment->cruising)\<close>
  block of \<^verbatim>\<open>stepperPulseStartSynchronized\<close>. \<open>f_step_timer\<close> is \<^verbatim>\<open>hal.f_step_timer\<close>.
  The product \<open>cycles_per_tick * n_step\<close> is a 32-bit product; \<open>dt\<close> divides by it.
\<close>

definition sync_correct :: "u32 \<Rightarrow> u32 \<Rightarrow> u16 \<Rightarrow> stepper_t \<Rightarrow> driver_t \<Rightarrow> fault + (stepper_t \<times> driver_t)" where
  "sync_correct f_step_timer timer_value counter stepper drv =
     (let seg = exec_segment stepper;
          tr = spindle_tracker drv
      in if cycles_per_tick seg * n_step seg = 0 then Inl FloatNotFinite
         else
           let dt = real (unat f_step_timer) / real (unat (cycles_per_tick seg * n_step seg));
               data = spindleGetData SpindleData_AngularPosition timer_value counter
                        (enabled (control_pid drv)) (spindle_encoder drv) (spindle_data drv);
               actual_pos0 = angular_position data * programmed_rate tr;
               pid0 = (if sync drv then (sync_pid tr)\<lparr>sample_rate_prev := dt\<rparr> else sync_pid tr);
               actual_pos = actual_pos0 - block_start tr
           in case pid pid0 (prev_pos tr) actual_pos dt of
                Inl e \<Rightarrow> Inl e
              | Inr (out, pid1) \<Rightarrow>
                  (case float_to_int32 (out * sync_steps_per_mm tr) of
                     Inl e \<Rightarrow> Inl e
                   | Inr step_delta \<Rightarrow>
                       (case sync_cycles_per_tick (step_count stepper) step_delta
                               (cycles_per_tick seg) (min_cycles_per_tick tr) of
                          Inl e \<Rightarrow> Inl e
                        | Inr cpt \<Rightarrow>
                            Inr (stepper\<lparr>exec_segment := seg\<lparr>cycles_per_tick := cpt\<rparr>\<rparr>,
                                 stepperCyclesPerTick cpt
                                   (drv\<lparr>spindle_data := data, sync := False,
                                        spindle_tracker := tr\<lparr>sync_pid := pid1\<rparr>\<rparr>)))))"

text \<open>
  The part of \<^verbatim>\<open>stepperPulseStart\<close> and \<^verbatim>\<open>stepperPulseStartDelayed\<close> that runs when
  the block is not spindle synchronized. \<open>which\<close> tells the two apart; it is never
  \<open>PulseStart_Synchronized\<close>, since \<^verbatim>\<open>stepper_pulse_start_normal\<close> is only assigned by
  these two functions, from their own address in \<^verbatim>\<open>hal.stepper_pulse_start\<close>.
\<close>

definition pulse_start_plain :: "pulse_start_t \<Rightarrow> stepper_t \<Rightarrow> driver_t \<Rightarrow> stepper_t \<times> driver_t" where
  "pulse_start_plain which stepper drv =
     (let stepper1 = (if new_block stepper then stepper\<lparr>new_block := False\<rparr> else stepper);
          drv1 = (if new_block stepper then drv\<lparr>dir_out := dir_outbits stepper\<rparr> else drv);
          drv2 = (if step_outbits stepper \<noteq> 0
                  then (if which = PulseStart_Delayed
                        then drv1\<lparr>next_step_outbits := step_outbits stepper, pulse_timer_started := True\<rparr>
                        else drv1\<lparr>step_out := step_outbits stepper, pulse_timer_started := True\<rparr>)
                  else drv1)
      in (stepper1, drv2))"

text \<open>
  The start of a synchronized block, the statements of
  \<^verbatim>\<open>stepperPulseStartSynchronized\<close> under \<^verbatim>\<open>if(stepper->new_block)\<close> after the test
  of \<^verbatim>\<open>spindle_sync\<close>.
\<close>

definition sync_new_block :: "u32 \<Rightarrow> u16 \<Rightarrow> stepper_t \<Rightarrow> driver_t \<Rightarrow> driver_t" where
  "sync_new_block timer_value counter stepper drv =
     (let data = spindleGetData SpindleData_AngularPosition timer_value counter
                   (enabled (control_pid drv)) (spindle_encoder drv) (spindle_data drv);
          tr = spindle_tracker drv
      in drv\<lparr>sync := True, dir_out := dir_outbits stepper, spindle_data := data,
             spindle_tracker :=
               tr\<lparr>programmed_rate := block_programmed_rate (exec_block stepper),
                  sync_steps_per_mm := block_steps_per_mm (exec_block stepper),
                  segment_id := 0,
                  prev_pos := 0,
                  sync_pid := (sync_pid tr)\<lparr>i_error := 0, d_error := 0, sample_rate_prev := 0\<rparr>,
                  block_start := angular_position data
                                 * block_programmed_rate (exec_block stepper)\<rparr>\<rparr>)"

text \<open>
  The step pulse, the block under \<^verbatim>\<open>if(stepper->step_outbits.value)\<close>.
  \<open>pulse_delay\<close> is \<^verbatim>\<open>settings.steppers.pulse_delay_microseconds\<close> as a truth value.
\<close>

definition sync_step_pulse :: "bool \<Rightarrow> stepper_t \<Rightarrow> driver_t \<Rightarrow> driver_t" where
  "sync_step_pulse pulse_delay stepper drv =
     (if step_outbits stepper \<noteq> 0
      then (if pulse_delay
            then drv\<lparr>next_step_outbits := step_outbits stepper, pulse_timer_started := True\<rparr>
            else drv\<lparr>step_out := step_outbits stepper, pulse_timer_started := True\<rparr>)
      else drv)"

text \<open>
  \<^verbatim>\<open>static void stepperPulseStartSynchronized (stepper_t *stepper)\<close>.
\<close>

definition stepperPulseStartSynchronized :: "bool \<Rightarrow> u32 \<Rightarrow> u32 \<Rightarrow> u16 \<Rightarrow> stepper_t \<Rightarrow> driver_t
    \<Rightarrow> fault + (stepper_t \<times> driver_t)" where
  "stepperPulseStartSynchronized pulse_delay f_step_timer timer_value counter stepper drv =
     (if new_block stepper \<and> \<not> spindle_sync (exec_segment stepper)
      then Inr (pulse_start_plain (stepper_pulse_start_normal (spindle_tracker drv)) stepper
                  (drv\<lparr>pulse_start := stepper_pulse_start_normal (spindle_tracker drv)\<rparr>))
      else
        let drv1 = (if new_block stepper then sync_new_block timer_value counter stepper drv else drv);
            drv2 = sync_step_pulse pulse_delay stepper drv1
        in if segment_id (spindle_tracker drv2) \<noteq> seg_id (exec_segment stepper)
           then
             (let drv3 = drv2\<lparr>spindle_tracker :=
                               (spindle_tracker drv2)\<lparr>segment_id := seg_id (exec_segment stepper)\<rparr>\<rparr>
              in case (if new_block stepper then Inr (stepper\<lparr>new_block := False\<rparr>, drv3)
                       else if cruising (exec_segment stepper)
                            then sync_correct f_step_timer timer_value counter stepper drv3
                            else Inr (stepper, drv3)) of
                   Inl e \<Rightarrow> Inl e
                 | Inr (stepper', drv4) \<Rightarrow>
                     Inr (stepper',
                          drv4\<lparr>spindle_tracker :=
                                 (spindle_tracker drv4)\<lparr>prev_pos := target_position (exec_segment stepper)\<rparr>\<rparr>))
           else Inr (stepper, drv2))"

text \<open>\<^verbatim>\<open>stepperPulseStart\<close> and \<^verbatim>\<open>stepperPulseStartDelayed\<close>.\<close>

definition stepperPulseStart :: "bool \<Rightarrow> u32 \<Rightarrow> u32 \<Rightarrow> u16 \<Rightarrow> stepper_t \<Rightarrow> driver_t
    \<Rightarrow> fault + (stepper_t \<times> driver_t)" where
  "stepperPulseStart pulse_delay f_step_timer timer_value counter stepper drv =
     (if new_block stepper \<and> spindle_sync (exec_segment stepper)
      then stepperPulseStartSynchronized pulse_delay f_step_timer timer_value counter stepper
             (drv\<lparr>spindle_tracker := (spindle_tracker drv)\<lparr>stepper_pulse_start_normal := pulse_start drv\<rparr>,
                  pulse_start := PulseStart_Synchronized\<rparr>)
      else Inr (pulse_start_plain PulseStart_Normal stepper drv))"

definition stepperPulseStartDelayed :: "bool \<Rightarrow> u32 \<Rightarrow> u32 \<Rightarrow> u16 \<Rightarrow> stepper_t \<Rightarrow> driver_t
    \<Rightarrow> fault + (stepper_t \<times> driver_t)" where
  "stepperPulseStartDelayed pulse_delay f_step_timer timer_value counter stepper drv =
     (if new_block stepper \<and> spindle_sync (exec_segment stepper)
      then stepperPulseStartSynchronized pulse_delay f_step_timer timer_value counter stepper
             (drv\<lparr>spindle_tracker := (spindle_tracker drv)\<lparr>stepper_pulse_start_normal := pulse_start drv\<rparr>,
                  pulse_start := PulseStart_Synchronized\<rparr>)
      else Inr (pulse_start_plain PulseStart_Delayed stepper drv))"


section \<open>Interrupt handlers (driver.c)\<close>

text \<open>
  \<^verbatim>\<open>void RPMCOUNTER_IRQHandler (void)\<close>, the pulse capture; \<open>tval\<close> and \<open>cval\<close> are
  the registers \<^verbatim>\<open>RPM_TIMER->VALUE\<close> and \<^verbatim>\<open>RPM_COUNTER->R\<close>.
\<close>

definition RPMCOUNTER_IRQHandler :: "u32 \<Rightarrow> u16 \<Rightarrow> driver_t \<Rightarrow> driver_t" where
  "RPMCOUNTER_IRQHandler tval cval drv =
     (let enc = spindle_encoder drv; data = spindle_data drv
      in drv\<lparr>spindle_data :=
               data\<lparr>pulse_count := pulse_count data
                        + word_of_int (counter_diff cval (pulse_counter_last enc))\<rparr>,
             spindle_encoder :=
               enc\<lparr>pulse_counter_last := cval,
                    tpp := drop_bit 2 (timer_value_last enc - tval),
                    timer_value_last := tval\<rparr>,
             rpm_counter_ccr0 := rpm_counter_ccr0 drv + ucast (pulse_counter_trigger enc)\<rparr>)"

text \<open>
  The number of pulses since the last index pulse as the index handler computes
  it, \<^verbatim>\<open>RPM_COUNTER->R - spindle_encoder.pulse_counter_index\<close>: an \<^verbatim>\<open>int\<close> difference,
  converted to \<^verbatim>\<open>uint32_t\<close> for the comparison with \<^verbatim>\<open>ppr\<close>.
\<close>

definition pulses_since_index :: "u16 \<Rightarrow> spindle_encoder_t \<Rightarrow> u32" where
  "pulses_since_index counter enc = word_of_int (counter_diff counter (pulse_counter_index enc))"

text \<open>
  The block \<^verbatim>\<open>if(iflags & RPM_INDEX_BIT) { ... }\<close> that \<^verbatim>\<open>CONTROL_IRQHandler\<close> and
  \<^verbatim>\<open>CONTROL_FH_CS_IRQHandler\<close> share.
\<close>

definition spindle_index_event :: "u32 \<Rightarrow> u16 \<Rightarrow> driver_t \<Rightarrow> driver_t" where
  "spindle_index_event timer_value counter drv =
     (let enc = spindle_encoder drv;
          mismatch = (pulses_since_index counter enc \<noteq> ppr enc)
      in drv\<lparr>spindle_encoder :=
               enc\<lparr>timer_value_index := timer_value, enc_error := mismatch,
                    pulse_counter_index := counter\<rparr>,
             rpm_counter_ccr0 :=
               (if mismatch then counter + ucast (pulse_counter_trigger enc)
                else rpm_counter_ccr0 drv),
             spindle_data := (spindle_data drv)\<lparr>index_count := index_count (spindle_data drv) + 1\<rparr>\<rparr>)"

text \<open>
  \<^verbatim>\<open>void CONTROL_IRQHandler (void)\<close>. \<open>iflags\<close> is \<^verbatim>\<open>CONTROL_PORT->IFG\<close>; the masks
  \<^verbatim>\<open>RPM_INDEX_BIT\<close> and \<^verbatim>\<open>CONTROL_MASK\<close> are declared outside this file and are
  arguments. The second component of the result tells whether
  \<^verbatim>\<open>hal.control_interrupt_callback\<close> was called.
\<close>

definition CONTROL_IRQHandler :: "u8 \<Rightarrow> u8 \<Rightarrow> u8 \<Rightarrow> u32 \<Rightarrow> u16 \<Rightarrow> driver_t \<Rightarrow> driver_t \<times> bool" where
  "CONTROL_IRQHandler RPM_INDEX_BIT CONTROL_MASK iflags timer_value counter drv =
     ((if iflags AND RPM_INDEX_BIT \<noteq> 0 then spindle_index_event timer_value counter drv else drv),
      iflags AND CONTROL_MASK \<noteq> 0)"

text \<open>
  \<^verbatim>\<open>inline static void spindle_rpm_pid (uint32_t tpp)\<close>. \<open>pwm_value\<close> stands for
  \<^verbatim>\<open>spindle_compute_pwm_value(&spindle_pwm, rpm, pid_limit)\<close>, which is not part of
  this file. The busy flag \<^verbatim>\<open>spindleLock\<close> is set and cleared within the call.
\<close>

definition spindle_rpm_pid :: "(float \<Rightarrow> bool \<Rightarrow> u16) \<Rightarrow> u32 \<Rightarrow> driver_t \<Rightarrow> fault + driver_t" where
  "spindle_rpm_pid pwm_value t drv =
     (let enc = (spindle_encoder drv)\<lparr>enc_rpm := spindle_calc_rpm (spindle_encoder drv) t\<rparr>
      in case enc_rpm enc of
           Finite actual \<Rightarrow>
             (case pid (control_pid drv) (rpm_programmed (spindle_data drv)) actual 1 of
                Inl e \<Rightarrow> Inl e
              | Inr (err, pid') \<Rightarrow>
                  Inr (drv\<lparr>spindle_encoder := enc, control_pid := pid',
                           spindle_pwm_ccr2 :=
                             pwm_value (rpm_programmed (spindle_data drv) + err) (err \<noteq> 0)\<rparr>))
         | _ \<Rightarrow> Inl FloatNotFinite)"

text \<open>
  \<^verbatim>\<open>void SysTick_Handler (void)\<close>, the \<^verbatim>\<open>switch(spindle_control.pid_state)\<close> of the
  build with \<^verbatim>\<open>SPINDLE_RPM_CONTROLLED\<close>; the countdown of \<^verbatim>\<open>delay.ms\<close> that follows
  it in the handler is not modelled. \<open>sample_rate\<close> is the constant
  \<^verbatim>\<open>SPINDLE_PID_SAMPLE_RATE\<close>, declared outside this file, by which the handler
  divides. In state \<open>Pending\<close> the handler only stores the RPM it computes, finite
  or not; in state \<open>Active\<close> it passes it to \<^verbatim>\<open>pid()\<close>.
\<close>

definition SysTick_Handler :: "u32 \<Rightarrow> (float \<Rightarrow> bool \<Rightarrow> u16) \<Rightarrow> driver_t \<Rightarrow> fault + driver_t" where
  "SysTick_Handler sample_rate pwm_value drv =
     (case pid_state drv of
        PIDState_Disabled \<Rightarrow> Inr drv
      | PIDState_Pending \<Rightarrow>
          (let tpp0 = (if pid_count drv = 0 then 0 else tpp_sum drv);
               spid0 = (if pid_count drv = 0 then sample_rate else spid drv);
               count1 = (if pid_count drv < 500 then pid_count drv + 1 else pid_count drv);
               state1 = (if pid_count drv < 500 then PIDState_Pending
                         else if index_count (spindle_data drv) > 2 then PIDState_Active
                         else PIDState_Pending);
               tpp1 = tpp0 + tpp (spindle_encoder drv);
               spid1 = spid0 - 1;
               drv1 = drv\<lparr>pid_count := count1, pid_state := state1\<rparr>
           in if spid1 = 0
              then (if sample_rate = 0 then Inl DivideByZero
                    else Inr (drv1\<lparr>spindle_encoder :=
                                     (spindle_encoder drv)\<lparr>enc_rpm :=
                                        spindle_calc_rpm (spindle_encoder drv) (tpp1 div sample_rate)\<rparr>,
                                   tpp_sum := 0, spid := sample_rate\<rparr>))
              else Inr (drv1\<lparr>tpp_sum := tpp1, spid := spid1\<rparr>))
      | PIDState_Active \<Rightarrow>
          (let tpp1 = tpp_sum drv + tpp (spindle_encoder drv);
               spid1 = spid drv - 1
           in if spid1 = 0
              then (if sample_rate = 0 then Inl DivideByZero
                    else case spindle_rpm_pid pwm_value (tpp1 div sample_rate) drv of
                           Inl e \<Rightarrow> Inl e
                         | Inr drv1 \<Rightarrow> Inr (drv1\<lparr>tpp_sum := 0, spid := sample_rate\<rparr>))
              else Inr (drv\<lparr>tpp_sum := tpp1, spid := spid1\<rparr>)))"


text \<open>Concrete encoder, tracker, driver state and stepper used to run the model.\<close>

definition example_encoder :: spindle_encoder_t where
  "example_encoder = \<lparr>ppr = 60, rpm_factor = 3000000, pulse_distance = 1 / 60,
      timer_resolution = 1 / 3000000, enc_rpm = Finite 2950, timer_value_index = 0,
      timer_value_last = 5000, tpp = 1000, maximum_tt = 3000000, pulse_counter_trigger = 4,
      pulse_counter_last = 8, pulse_counter_index = 0, enc_error = False\<rparr>"

definition example_data :: spindle_data_t where
  "example_data = \<lparr>rpm = Finite 0, rpm_programmed = 3000, rpm_low_limit = 2700, rpm_high_limit = 3300,
      angular_position = 0, index_count = 3, pulse_count = 8\<rparr>"

definition example_tracker :: spindle_sync_t where
  "example_tracker = \<lparr>block_start = 314 / 100, prev_pos = 0, sync_steps_per_mm = 250,
      programmed_rate = 1, min_cycles_per_tick = 480,
      stepper_pulse_start_normal = PulseStart_Normal, segment_id = 1, sync_pid = example_pid\<rparr>"

definition example_drv :: driver_t where
  "example_drv = \<lparr>spindle_encoder = example_encoder, spindle_data = example_data,
      spindle_tracker = example_tracker, pid_state = PIDState_Pending, control_pid = example_pid,
      pid_count = 500, spid = 5, tpp_sum = 0, sync = True, pulse_start = PulseStart_Synchronized,
      next_step_outbits = 0, step_out = 0, dir_out = 0, pulse_timer_started = False,
      stepper_timer_load = 1000, stepper_timer_enabled = True, rpm_counter_ccr0 = 12,
      spindle_pwm_ccr2 = 0\<rparr>"

definition example_stepper :: stepper_t where
  "example_stepper = \<lparr>new_block = False, step_count = 47, step_outbits = 1, dir_outbits = 0,
      exec_segment = \<lparr>seg_id = 2, spindle_sync = True, cruising = True, cycles_per_tick = 1000,
                       n_step = 48, target_position = 1 / 10\<rparr>,
      exec_block = \<lparr>block_programmed_rate = 1, block_steps_per_mm = 250\<rparr>\<rparr>"

definition example_pwm_value :: "float \<Rightarrow> bool \<Rightarrow> u16" where
  "example_pwm_value r pid_limit = word_of_int \<lfloor>r / 10\<rfloor>"


section \<open>Properties of the PID controller\<close>

lemma limit_error_abs: "m \<noteq> 0 \<Longrightarrow> \<bar>limit_error m x\<bar> \<le> \<bar>m\<bar>"
  by (auto simp: limit_error_def)

lemma pid_Inr_D:
  assumes "pid p c a s = Inr (out, p')"
  shows "s \<noteq> 0"
    and "d_gain (cfg p) \<noteq> 0 \<Longrightarrow> sample_rate_prev p \<noteq> 0"
    and "cfg p' = cfg p" and "sample_rate_prev p' = s" and "pid_error p' = out"
    and "d_error p' = (if d_gain (cfg p) \<noteq> 0 then c - a else d_error p)"
    and "\<exists>x. i_error p' = limit_error (i_max_error (cfg p)) x"
    and "\<exists>x. out = limit_error (max_error (cfg p)) x"
  using assms by (auto simp: pid_def Let_def split: if_splits)

text \<open>The call returns a value whenever neither float division has a zero divisor.\<close>

lemma pid_returns:
  assumes "s \<noteq> 0" and "d_gain (cfg p) \<noteq> 0 \<longrightarrow> sample_rate_prev p \<noteq> 0"
  shows "\<exists>out p'. pid p c a s = Inr (out, p')"
  using assms by (auto simp: pid_def Let_def)

lemma pid_i_error_bound:
  assumes "pid p c a s = Inr (out, p')" and "i_max_error (cfg p) \<noteq> 0"
  shows "\<bar>i_error p'\<bar> \<le> \<bar>i_max_error (cfg p)\<bar>"
  using pid_Inr_D(7)[OF assms(1)] assms(2) by (auto simp: limit_error_abs)

lemma pid_out_bound:
  assumes "pid p c a s = Inr (out, p')" and "max_error (cfg p) \<noteq> 0"
  shows "\<bar>out\<bar> \<le> \<bar>max_error (cfg p)\<bar>"
  using pid_Inr_D(8)[OF assms(1)] assms(2) by (auto simp: limit_error_abs)

lemma pid_calls_Cons_D:
  assumes "pid_calls p ((c, a, s) # rest) = Inr (outs, p')"
  obtains out p1 outs1 where "pid p c a s = Inr (out, p1)"
    and "pid_calls p1 rest = Inr (outs1, p')" and "outs = out # outs1"
  using assms by (auto split: sum.splits prod.splits)

lemma pid_calls_cfg: "pid_calls p calls = Inr (outs, p') \<Longrightarrow> cfg p' = cfg p"
proof (induction calls arbitrary: p outs)
  case Nil
  then show ?case by simp
next
  case (Cons call rest)
  obtain c a s where call: "call = (c, a, s)" by (cases call)
  from Cons.prems obtain out p1 outs1 where
    "pid p c a s = Inr (out, p1)" and "pid_calls p1 rest = Inr (outs1, p')"
    unfolding call by (rule pid_calls_Cons_D)
  then show ?case using Cons.IH pid_Inr_D(3) by metis
qed

lemma pid_calls_out_bound:
  "pid_calls p calls = Inr (outs, p') \<Longrightarrow> max_error (cfg p) \<noteq> 0 \<Longrightarrow>
     out \<in> set outs \<Longrightarrow> \<bar>out\<bar> \<le> \<bar>max_error (cfg p)\<bar>"
proof (induction calls arbitrary: p outs)
  case Nil
  then show ?case by simp
next
  case (Cons call rest)
  obtain c a s where call: "call = (c, a, s)" by (cases call)
  from Cons.prems(1) obtain out1 p1 outs1 where
    step: "pid p c a s = Inr (out1, p1)" and rest: "pid_calls p1 rest = Inr (outs1, p')"
    and outs: "outs = out1 # outs1"
    unfolding call by (rule pid_calls_Cons_D)
  have cfg1: "cfg p1 = cfg p" using step by (rule pid_Inr_D(3))
  show ?case
  proof (cases "out = out1")
    case True
    then show ?thesis using pid_out_bound[OF step] Cons.prems(2) by simp
  next
    case False
    with Cons.prems(3) outs have "out \<in> set outs1" by simp
    with Cons.IH[OF rest] Cons.prems(2) cfg1 show ?thesis by simp
  qed
qed

lemma pid_calls_i_error_bound:
  "pid_calls p calls = Inr (outs, p') \<Longrightarrow> calls \<noteq> [] \<Longrightarrow> i_max_error (cfg p) \<noteq> 0 \<Longrightarrow>
     \<bar>i_error p'\<bar> \<le> \<bar>i_max_error (cfg p)\<bar>"
proof (induction calls arbitrary: p outs)
  case Nil
  then show ?case by simp
next
  case (Cons call rest)
  obtain c a s where call: "call = (c, a, s)" by (cases call)
  from Cons.prems(1) obtain out1 p1 outs1 where
    step: "pid p c a s = Inr (out1, p1)" and rest: "pid_calls p1 rest = Inr (outs1, p')"
    unfolding call by (rule pid_calls_Cons_D)
  have cfg1: "cfg p1 = cfg p" using step by (rule pid_Inr_D(3))
  show ?case
  proof (cases rest)
    case Nil
    with rest have "p' = p1" by simp
    then show ?thesis using pid_i_error_bound[OF step] Cons.prems(3) by simp
  next
    case (Cons x xs)
    then have "rest \<noteq> []" by simp
    from Cons.IH[OF rest this] Cons.prems(3) cfg1 show ?thesis by simp
  qed
qed

lemma pid_calls_example:
  "pid_calls example_pid [(100, 0, 1), (100, 90, 1)]
     = Inr ([250, 50], example_pid\<lparr>i_error := 20, sample_rate_prev := 1, pid_error := 50\<rparr>)"
  by (simp add: pid_def Let_def limit_error_def example_pid_def example_cfg_def)

lemma pid_example:
  "pid example_pid 5 0 2 = Inr (35 / 2, example_pid\<lparr>i_error := 5 / 2, sample_rate_prev := 2, pid_error := 35 / 2\<rparr>)"
  by (simp add: pid_def Let_def limit_error_def example_pid_def example_cfg_def)

lemma pid_calls_length: "pid_calls p calls = Inr (outs, p') \<Longrightarrow> length outs = length calls"
proof (induction calls arbitrary: p outs)
  case Nil
  then show ?case by simp
next
  case (Cons call rest)
  obtain c a s where call: "call = (c, a, s)" by (cases call)
  from Cons.prems obtain out p1 outs1 where
    "pid_calls p1 rest = Inr (outs1, p')" and "outs = out # outs1"
    unfolding call by (rule pid_calls_Cons_D)
  then show ?case using Cons.IH by simp
qed

text \<open>
  A sequence of calls returns when no sample rate is zero and, with a derivative
  gain, the stored previous sample rate is not zero at the start: after a call the
  stored previous sample rate is that call's sample rate.
\<close>

lemma pid_calls_returns:
  assumes "\<forall>(command, actual, sample_rate) \<in> set calls. sample_rate \<noteq> 0"
    and "d_gain (cfg p) \<noteq> 0 \<longrightarrow> sample_rate_prev p \<noteq> 0"
  shows "\<exists>outs p'. pid_calls p calls = Inr (outs, p')"
  using assms
proof (induction calls arbitrary: p)
  case Nil
  then show ?case by simp
next
  case (Cons call rest)
  obtain c a s where call: "call = (c, a, s)" by (cases call)
  from Cons.prems(1) call have s: "s \<noteq> 0" by simp
  from pid_returns[OF s Cons.prems(2)] obtain out p1 where
    step: "pid p c a s = Inr (out, p1)" by blast
  have "cfg p1 = cfg p" "sample_rate_prev p1 = s"
    using pid_Inr_D(3,4)[OF step] by simp_all
  then have "d_gain (cfg p1) \<noteq> 0 \<longrightarrow> sample_rate_prev p1 \<noteq> 0" using s by simp
  moreover from Cons.prems(1) have
    "\<forall>(command, actual, sample_rate) \<in> set rest. sample_rate \<noteq> 0" by simp
  ultimately obtain outs1 p' where "pid_calls p1 rest = Inr (outs1, p')"
    using Cons.IH by blast
  with step call show ?case by simp
qed

text \<open>
  C3. Every sequence of calls of \<^verbatim>\<open>pid()\<close> on a controller whose bounds
  \<open>i_max_error\<close> and \<open>max_error\<close> are not negative returns a correction for each
  call, and after the last call (so after each call, every prefix being a
  sequence): when the configured \<open>i_max_error\<close> is not zero the stored integral
  error is at most \<open>i_max_error\<close> in absolute value, and when the configured
  \<open>max_error\<close> is not zero every returned correction is at most \<open>max_error\<close> in
  absolute value. The sample rates are not zero, and with a derivative gain the
  previous sample rate stored at the start is not zero: these are the divisors of
  the two float divisions of the function.
\<close>

theorem pid_calls_clamped:
  assumes "\<forall>(command, actual, sample_rate) \<in> set calls. sample_rate \<noteq> 0"
    and "d_gain (cfg p) \<noteq> 0 \<longrightarrow> sample_rate_prev p \<noteq> 0"
    and "0 \<le> i_max_error (cfg p)" and "0 \<le> max_error (cfg p)"
  shows "\<exists>outs p'. pid_calls p calls = Inr (outs, p') \<and> length outs = length calls \<and>
           (calls \<noteq> [] \<longrightarrow> i_max_error (cfg p) \<noteq> 0 \<longrightarrow> \<bar>i_error p'\<bar> \<le> i_max_error (cfg p)) \<and>
           (max_error (cfg p) \<noteq> 0 \<longrightarrow> (\<forall>out \<in> set outs. \<bar>out\<bar> \<le> max_error (cfg p)))"
proof -
  from pid_calls_returns[OF assms(1,2)] obtain outs p' where
    run: "pid_calls p calls = Inr (outs, p')" by blast
  have "calls \<noteq> [] \<longrightarrow> i_max_error (cfg p) \<noteq> 0 \<longrightarrow> \<bar>i_error p'\<bar> \<le> i_max_error (cfg p)"
    using pid_calls_i_error_bound[OF run] assms(3) by auto
  moreover have "max_error (cfg p) \<noteq> 0 \<longrightarrow> (\<forall>out \<in> set outs. \<bar>out\<bar> \<le> max_error (cfg p))"
    using pid_calls_out_bound[OF run] assms(4) by auto
  ultimately show ?thesis using run pid_calls_length[OF run] by blast
qed

theorem pid_calls_clamped_witness:
  "pid_calls example_pid [(100, 0, 1), (100, 90, 1)]
     = Inr ([250, 50], example_pid\<lparr>i_error := 20, sample_rate_prev := 1, pid_error := 50\<rparr>) \<and>
   i_max_error (cfg example_pid) = 20 \<and> max_error (cfg example_pid) = 250 \<and>
   \<bar>i_error (example_pid\<lparr>i_error := 20, sample_rate_prev := 1, pid_error := 50\<rparr>)\<bar>
     \<le> i_max_error (cfg example_pid) \<and>
   \<bar>250 :: float\<bar> \<le> max_error (cfg example_pid) \<and>
   \<bar>50 :: float\<bar> \<le> max_error (cfg example_pid)"
proof -
  have rates: "\<forall>(command, actual, sample_rate) \<in> set [(100, 0, 1), (100, 90, 1 :: float)].
      sample_rate \<noteq> (0 :: float)" by simp
  have prev: "d_gain (cfg example_pid) \<noteq> 0 \<longrightarrow> sample_rate_prev example_pid \<noteq> 0"
    by (simp add: example_pid_def example_cfg_def)
  have bounds: "0 \<le> i_max_error (cfg example_pid)" "0 \<le> max_error (cfg example_pid)"
    by (simp_all add: example_pid_def example_cfg_def)
  have vals: "i_max_error (cfg example_pid) = 20" "max_error (cfg example_pid) = 250"
    by (simp_all add: example_pid_def example_cfg_def)
  from pid_calls_clamped[OF rates prev bounds] pid_calls_example vals
  show ?thesis by auto
qed

text \<open>
  The bounds are magnitudes. The test in the code is \<^verbatim>\<open>i_max_error != 0.0f\<close>, so a
  negative bound is active too, and the clamp then stores the bound itself.
\<close>

lemma pid_negative_bound:
  "pid negative_bound_pid 0 0 1
     = Inr (0, negative_bound_pid\<lparr>i_error := - 1, sample_rate_prev := 1, pid_error := 0\<rparr>)"
  by (simp add: pid_def Let_def limit_error_def negative_bound_pid_def example_pid_def example_cfg_def)

text \<open>
  C8, as the code has it. Every call of \<^verbatim>\<open>pid()\<close> that returns stores the call's
  sample rate in \<open>sample_rate_prev\<close>. The previous error \<open>d_error\<close> is assigned inside
  the block guarded by \<^verbatim>\<open>d_gain != 0.0f\<close>: it becomes the call's error when the
  derivative gain is not zero and keeps its old value when the derivative gain is zero.
\<close>

theorem pid_history_update:
  assumes "pid p command actual sample_rate = Inr (out, p')"
  shows "sample_rate_prev p' = sample_rate \<and>
         d_error p' = (if d_gain (cfg p) \<noteq> 0 then command - actual else d_error p)"
  using pid_Inr_D(4,6)[OF assms] by simp

theorem pid_history_update_witness:
  "pid example_pid 5 0 2
     = Inr (35 / 2, example_pid\<lparr>i_error := 5 / 2, sample_rate_prev := 2, pid_error := 35 / 2\<rparr>) \<and>
   sample_rate_prev (example_pid\<lparr>i_error := 5 / 2, sample_rate_prev := 2, pid_error := 35 / 2\<rparr>) = 2 \<and>
   d_error (example_pid\<lparr>i_error := 5 / 2, sample_rate_prev := 2, pid_error := 35 / 2\<rparr>)
     = (if d_gain (cfg example_pid) \<noteq> 0 then 5 - 0 else d_error example_pid)"
  using pid_history_update[OF pid_example] pid_example by blast

text \<open>
  With a derivative gain of zero the previous error is not updated: the call below
  has error \<open>5\<close> and leaves \<open>d_error\<close> at \<open>0\<close>.
\<close>

theorem pid_previous_error_counterexample:
  "d_gain (cfg example_pid) = 0 \<and>
   pid example_pid 5 0 2
     = Inr (35 / 2, example_pid\<lparr>i_error := 5 / 2, sample_rate_prev := 2, pid_error := 35 / 2\<rparr>) \<and>
   d_error (example_pid\<lparr>i_error := 5 / 2, sample_rate_prev := 2, pid_error := 35 / 2\<rparr>) \<noteq> 5 - 0"
  by (simp add: pid_def Let_def limit_error_def example_pid_def example_cfg_def)

section \<open>Properties of the homing code\<close>

lemma set_origin_loop_length [simp]: "length (set_origin_loop cycle n pos) = length pos"
  by (induction n arbitrary: pos) auto

lemma set_travel_loop_length [simp]: "length (set_travel_loop u s pd cycle n pos) = length pos"
  by (induction n arbitrary: pos) auto

lemma set_origin_loop_above: "n \<le> i \<Longrightarrow> set_origin_loop cycle n pos ! i = pos ! i"
  by (induction n arbitrary: pos) auto

lemma set_travel_loop_above: "n \<le> i \<Longrightarrow> set_travel_loop u s pd cycle n pos ! i = pos ! i"
  by (induction n arbitrary: pos) auto

lemma set_origin_loop_outside:
  "cycle AND bitn i = 0 \<Longrightarrow> set_origin_loop cycle n pos ! i = pos ! i"
proof (induction n arbitrary: pos)
  case 0
  then show ?case by simp
next
  case (Suc n)
  then show ?case by (cases "n = i") auto
qed

lemma set_travel_loop_outside:
  "cycle AND bitn i = 0 \<Longrightarrow> set_travel_loop u s pd cycle n pos ! i = pos ! i"
proof (induction n arbitrary: pos)
  case 0
  then show ?case by simp
next
  case (Suc n)
  then show ?case by (cases "n = i") auto
qed

lemma set_origin_loop_inside:
  "i < n \<Longrightarrow> i < length pos \<Longrightarrow> cycle AND bitn i \<noteq> 0 \<Longrightarrow> set_origin_loop cycle n pos ! i = 0"
proof (induction n arbitrary: pos)
  case 0
  then show ?case by simp
next
  case (Suc n)
  show ?case
  proof (cases "i = n")
    case True
    then show ?thesis using Suc.prems by (simp add: set_origin_loop_above)
  next
    case False
    then have "i < n" using Suc.prems by simp
    then show ?thesis using Suc.IH Suc.prems by simp
  qed
qed

lemma set_travel_loop_inside:
  "i < n \<Longrightarrow> i < length pos \<Longrightarrow> cycle AND bitn i \<noteq> 0 \<Longrightarrow>
     set_travel_loop u s pd cycle n pos ! i =
       (if bit_istrue (homing_dir_mask s) (bitn i)
        then lroundf u ((max_travel s ! i + pd) * steps_per_mm s ! i)
        else lroundf u (- pd * steps_per_mm s ! i))"
proof (induction n arbitrary: pos)
  case 0
  then show ?case by simp
next
  case (Suc n)
  show ?case
  proof (cases "i = n")
    case True
    then show ?thesis using Suc.prems by (simp add: set_travel_loop_above)
  next
    case False
    then have "i < n" using Suc.prems by simp
    then show ?thesis using Suc.IH Suc.prems by simp
  qed
qed

lemma limits_set_machine_positions_inside:
  assumes "idx < N_AXIS" and "idx < length pos" and "cycle AND bitn idx \<noteq> 0"
  shows "limits_set_machine_positions u settings cycle add_pulloff pos ! idx =
    (if force_set_origin settings then 0
     else if bit_istrue (homing_dir_mask settings) (bitn idx)
          then lroundf u ((max_travel settings ! idx + (if add_pulloff then pulloff settings else 0))
                 * steps_per_mm settings ! idx)
          else lroundf u (- (if add_pulloff then pulloff settings else 0) * steps_per_mm settings ! idx))"
  using assms
  by (simp add: limits_set_machine_positions_def Let_def set_origin_loop_inside set_travel_loop_inside)

text \<open>Inside the range of \<^verbatim>\<open>int32_t\<close> the result of \<^verbatim>\<open>lroundf\<close> is the rounded value.\<close>

lemma lroundf_in_range:
  assumes "- (2 ^ 31) \<le> (if 0 \<le> x then \<lfloor>x + 1 / 2\<rfloor> else - \<lfloor>- x + 1 / 2\<rfloor>)"
    and "(if 0 \<le> x then \<lfloor>x + 1 / 2\<rfloor> else - \<lfloor>- x + 1 / 2\<rfloor>) < 2 ^ 31"
  shows "lroundf u x = word_of_int (if 0 \<le> x then \<lfloor>x + 1 / 2\<rfloor> else - \<lfloor>- x + 1 / 2\<rfloor>)"
  using assms by (simp add: lroundf_def Let_def)

text \<open>
  C10. \<^verbatim>\<open>limits_set_machine_positions(cycle, add_pulloff)\<close> leaves the
  \<^verbatim>\<open>sys_position\<close> entry of every axis whose bit is not set in \<^verbatim>\<open>cycle.mask\<close> as it
  was, with \<^verbatim>\<open>force_set_origin\<close> set or not.
\<close>

theorem limits_set_machine_positions_frame:
  assumes "cycle AND bitn idx = 0"
  shows "limits_set_machine_positions u settings cycle add_pulloff position ! idx = position ! idx"
  using assms
  by (simp add: limits_set_machine_positions_def Let_def set_origin_loop_outside
      set_travel_loop_outside)

theorem limits_set_machine_positions_frame_witness:
  "(1 :: u8) AND bitn 1 = 0 \<and>
   limits_set_machine_positions example_unspecified example_settings 1 True [10, 20, 30] ! 1
     = [10, 20, 30] ! 1 \<and>
   limits_set_machine_positions example_unspecified (example_settings\<lparr>force_set_origin := True\<rparr>)
       1 True [10, 20, 30] ! 1
     = [10, 20, 30] ! 1 \<and>
   limits_set_machine_positions example_unspecified example_settings 1 True [10, 20, 30]
     = [- 250, 20, 30]"
proof -
  have h: "(1 :: u8) AND bitn 1 = 0" by (simp add: bitn_def)
  have r: "limits_set_machine_positions example_unspecified example_settings 1 True [10, 20, 30]
      = [- 250, 20, 30]"
    by (simp add: limits_set_machine_positions_def example_settings_def N_AXIS_def
        eval_nat_numeral bitn_def bit_istrue_def lroundf_def)
  from limits_set_machine_positions_frame[OF h, of example_unspecified example_settings True "[10, 20, 30]"]
    limits_set_machine_positions_frame[OF h, of example_unspecified
      "example_settings\<lparr>force_set_origin := True\<rparr>" True "[10, 20, 30]"]
    h r
  show ?thesis by simp
qed

lemma set_targets_length:
  "set_targets s c a t n (k, pos, tg, al) = (k', pos', tg', al') \<Longrightarrow> length pos' = length pos"
  by (induction n arbitrary: k pos tg al) (auto split: if_splits)

lemma homing_wait_Continue:
  "homing_wait a c al lk polls = Homing_Continue lk' polls' \<Longrightarrow> set polls' \<subseteq> set polls"
proof (induction polls arbitrary: lk)
  case Nil
  then show ?case by simp
next
  case (Cons p polls)
  then show ?case by (auto simp: Let_def split: if_splits)
qed

lemma homing_wait_Failed:
  "homing_wait a c al lk polls = Homing_Failed al' lk' \<Longrightarrow> al' \<noteq> Alarm_None"
proof (induction polls arbitrary: lk)
  case Nil
  then show ?case by simp
next
  case (Cons p polls)
  then show ?case by (auto simp: Let_def split: if_splits)
qed

text \<open>More samples after a loop that has ended change nothing but the samples left over.\<close>

lemma homing_wait_append_Continue:
  "homing_wait a c al lk pre = Homing_Continue lk' polls' \<Longrightarrow>
     homing_wait a c al lk (pre @ rest) = Homing_Continue lk' (polls' @ rest)"
proof (induction pre arbitrary: lk)
  case Nil
  then show ?case by simp
next
  case (Cons p pre)
  then show ?case by (auto simp: Let_def split: if_splits)
qed

text \<open>A loop still polling goes on with the next samples from the lock mask it has reached.\<close>

lemma homing_wait_append_Polling:
  "homing_wait a c al lk pre = Wait_Polling lk' \<Longrightarrow>
     homing_wait a c al lk (pre @ rest) = homing_wait a c al lk' rest"
proof (induction pre arbitrary: lk)
  case Nil
  then show ?case by simp
next
  case (Cons p pre)
  then show ?case by (auto simp: Let_def split: if_splits)
qed

text \<open>The alarm of the exit routine is that of the last of its four tests that applies.\<close>

lemma homing_exit_alarm_eq:
  "homing_exit_alarm approach cycle p alarm =
     (if approach \<and> exec_cycle_complete p then Alarm_HomingFailApproach
      else if \<not> approach \<and> limit_state p AND cycle \<noteq> 0 then Alarm_FailPulloff
      else if exec_safety_door p then Alarm_HomingFailDoor
      else if exec_reset p then Alarm_HomingFailReset
      else alarm)"
  by (simp add: homing_exit_alarm_def Let_def)

text \<open>
  A sample with a reset, an open safety door, a completed approach motion or a
  limit switch of the cycle engaged at the end of a retract motion ends the polling
  loop with a failure, whose alarm does not depend on the alarm pending before.
\<close>

lemma homing_wait_fails:
  assumes "exec_reset p \<or> exec_safety_door p \<or> (approach \<and> exec_cycle_complete p) \<or>
           (\<not> approach \<and> exec_cycle_complete p \<and> limit_state p AND cycle \<noteq> 0)"
  shows "\<exists>lock. homing_wait approach cycle alarm axislock (p # polls)
           = Homing_Failed
               (if approach \<and> exec_cycle_complete p then Alarm_HomingFailApproach
                else if \<not> approach \<and> limit_state p AND cycle \<noteq> 0 then Alarm_FailPulloff
                else if exec_safety_door p then Alarm_HomingFailDoor
                else Alarm_HomingFailReset) lock"
  using assms by (auto simp: Let_def homing_exit_alarm_eq)

lemma set_targets_cases:
  obtains k pos tg al where
    "set_targets settings cycle approach travel N_AXIS
       (0, sys_position sys, mpos (sys_position sys), 0) = (k, pos, tg, al)"
    and "length pos = length (sys_position sys)"
proof -
  obtain k pos tg al where st: "set_targets settings cycle approach travel N_AXIS
       (0, sys_position sys, mpos (sys_position sys), 0) = (k, pos, tg, al)"
    by (cases "set_targets settings cycle approach travel N_AXIS
       (0, sys_position sys, mpos (sys_position sys), 0)") auto
  from set_targets_length[OF st] st that show ?thesis by blast
qed

text \<open>
  One unfolding of the outer loop, by the result of its polling loop.
\<close>

lemma homing_passes_Polling_step:
  assumes "set_targets settings cycle approach travel N_AXIS
             (0, sys_position sys, mpos (sys_position sys), 0) = (k, pos, tg, al)"
    and "homing_wait approach cycle (sys_rt_exec_alarm sys) al polls = Wait_Polling lock"
  shows "homing_passes u settings mpos cycle n approach travel rate sys polls =
           Homing_Polling approach
             (sys\<lparr>sys_position := pos, homing_axis_lock := lock,
                  planned := (tg, rate * sqrt (real k)) # planned sys, execute_sys_motion := True\<rparr>)"
  using assms by (subst homing_passes.simps) (simp add: Let_def)

lemma homing_passes_Failed_step:
  assumes "set_targets settings cycle approach travel N_AXIS
             (0, sys_position sys, mpos (sys_position sys), 0) = (k, pos, tg, al)"
    and "homing_wait approach cycle (sys_rt_exec_alarm sys) al polls = Homing_Failed alarm lock"
  shows "homing_passes u settings mpos cycle n approach travel rate sys polls =
           Homing_Returned False
             (sys\<lparr>sys_position := pos, homing_axis_lock := lock,
                  planned := (tg, rate * sqrt (real k)) # planned sys, execute_sys_motion := True,
                  sys_rt_exec_alarm := alarm\<rparr>)"
  using assms by (subst homing_passes.simps) (simp add: Let_def)

lemma homing_passes_Continue_step:
  assumes "set_targets settings cycle approach travel N_AXIS
             (0, sys_position sys, mpos (sys_position sys), 0) = (k, pos, tg, al)"
    and "homing_wait approach cycle (sys_rt_exec_alarm sys) al polls = Homing_Continue lock polls'"
  shows "homing_passes u settings mpos cycle (Suc n) approach travel rate sys polls =
           homing_passes u settings mpos cycle n (\<not> approach)
             (if \<not> approach then pulloff settings * HOMING_AXIS_LOCATE_SCALAR else pulloff settings)
             (if \<not> approach then feed_rate settings else seek_rate settings)
             (sys\<lparr>sys_position := pos, homing_axis_lock := lock,
                  planned := (tg, rate * sqrt (real k)) # planned sys, execute_sys_motion := True\<rparr>)
             polls'"
proof -
  have eq: "sys\<lparr>sys_position := pos, planned := (tg, rate * sqrt (real k)) # planned sys,
                execute_sys_motion := True, homing_axis_lock := lock\<rparr>
          = sys\<lparr>sys_position := pos, homing_axis_lock := lock,
                planned := (tg, rate * sqrt (real k)) # planned sys, execute_sys_motion := True\<rparr>"
    by simp
  show ?thesis
    using assms by (simp add: Let_def homing_passes.simps[of _ _ _ _ "Suc n"] eq)
qed

lemma homing_passes_Done_step:
  assumes "set_targets settings cycle approach travel N_AXIS
             (0, sys_position sys, mpos (sys_position sys), 0) = (k, pos, tg, al)"
    and "homing_wait approach cycle (sys_rt_exec_alarm sys) al polls = Homing_Continue lock polls'"
  shows "homing_passes u settings mpos cycle 0 approach travel rate sys polls =
           Homing_Returned True
             (sys\<lparr>homing_axis_lock := lock,
                  planned := (tg, rate * sqrt (real k)) # planned sys,
                  sys_position := limits_set_machine_positions u settings cycle True pos,
                  execute_sys_motion := False, homed := homed sys OR cycle\<rparr>)"
  using assms by (simp add: Let_def homing_passes.simps[of _ _ _ _ 0])

text \<open>A run that returns false leaves the homed mask as it was.\<close>

lemma homing_passes_False:
  "homing_passes u settings mpos cycle n approach travel rate sys polls = Homing_Returned False sys' \<Longrightarrow>
     homed sys' = homed sys \<and> sys_rt_exec_alarm sys' \<noteq> Alarm_None"
proof (induction n arbitrary: approach travel rate sys polls)
  case 0
  obtain k pos tg al where st: "set_targets settings cycle approach travel N_AXIS
             (0, sys_position sys, mpos (sys_position sys), 0) = (k, pos, tg, al)"
    by (rule set_targets_cases)
  show ?case
  proof (cases "homing_wait approach cycle (sys_rt_exec_alarm sys) al polls")
    case (Wait_Polling lock)
    from 0 homing_passes_Polling_step[where mpos=mpos, OF st Wait_Polling] show ?thesis by simp
  next
    case (Homing_Failed alarm lock)
    from 0 homing_passes_Failed_step[where mpos=mpos, OF st Homing_Failed] homing_wait_Failed[OF Homing_Failed]
    show ?thesis by auto
  next
    case (Homing_Continue lock polls')
    from 0 homing_passes_Done_step[where mpos=mpos, OF st Homing_Continue] show ?thesis by simp
  qed
next
  case (Suc n)
  obtain k pos tg al where st: "set_targets settings cycle approach travel N_AXIS
             (0, sys_position sys, mpos (sys_position sys), 0) = (k, pos, tg, al)"
    by (rule set_targets_cases)
  show ?case
  proof (cases "homing_wait approach cycle (sys_rt_exec_alarm sys) al polls")
    case (Wait_Polling lock)
    from Suc.prems homing_passes_Polling_step[where mpos=mpos, OF st Wait_Polling] show ?thesis by simp
  next
    case (Homing_Failed alarm lock)
    from Suc.prems homing_passes_Failed_step[where mpos=mpos, OF st Homing_Failed] homing_wait_Failed[OF Homing_Failed]
    show ?thesis by auto
  next
    case (Homing_Continue lock polls')
    from Suc.prems homing_passes_Continue_step[where mpos=mpos, OF st Homing_Continue]
    have "homing_passes u settings mpos cycle n (\<not> approach)
             (if \<not> approach then pulloff settings * HOMING_AXIS_LOCATE_SCALAR else pulloff settings)
             (if \<not> approach then feed_rate settings else seek_rate settings)
             (sys\<lparr>sys_position := pos, homing_axis_lock := lock,
                  planned := (tg, rate * sqrt (real k)) # planned sys, execute_sys_motion := True\<rparr>)
             polls' = Homing_Returned False sys'" by simp
    from Suc.IH[OF this] show ?thesis by simp
  qed
qed

text \<open>
  A run that is still polling has changed neither the homed mask nor the pending
  alarm, and a failure of its polling loop at the next samples is the result of
  the run on the longer list of samples.
\<close>

lemma homing_passes_Polling:
  "homing_passes u settings mpos cycle n approach travel rate sys pre = Homing_Polling ap sys1 \<Longrightarrow>
     homed sys1 = homed sys \<and> sys_rt_exec_alarm sys1 = sys_rt_exec_alarm sys \<and>
     (\<forall>rest alarm lock.
        homing_wait ap cycle (sys_rt_exec_alarm sys) (homing_axis_lock sys1) rest
          = Homing_Failed alarm lock \<longrightarrow>
        homing_passes u settings mpos cycle n approach travel rate sys (pre @ rest)
          = Homing_Returned False (sys1\<lparr>homing_axis_lock := lock, sys_rt_exec_alarm := alarm\<rparr>))"
proof (induction n arbitrary: approach travel rate sys pre)
  case 0
  obtain k pos tg al where st: "set_targets settings cycle approach travel N_AXIS
             (0, sys_position sys, mpos (sys_position sys), 0) = (k, pos, tg, al)"
    by (rule set_targets_cases)
  show ?case
  proof (cases "homing_wait approach cycle (sys_rt_exec_alarm sys) al pre")
    case (Wait_Polling lock1)
    from 0 homing_passes_Polling_step[where mpos=mpos, OF st Wait_Polling]
    have ap: "ap = approach" and s1: "sys1 = sys\<lparr>sys_position := pos, homing_axis_lock := lock1,
                  planned := (tg, rate * sqrt (real k)) # planned sys, execute_sys_motion := True\<rparr>"
      by simp_all
    show ?thesis
      using homing_wait_append_Polling[OF Wait_Polling] homing_passes_Failed_step[where mpos=mpos, OF st]
      by (auto simp: ap s1)
  next
    case (Homing_Failed alarm lock)
    from 0 homing_passes_Failed_step[where mpos=mpos, OF st Homing_Failed] show ?thesis by simp
  next
    case (Homing_Continue lock polls')
    from 0 homing_passes_Done_step[where mpos=mpos, OF st Homing_Continue] show ?thesis by simp
  qed
next
  case (Suc n)
  obtain k pos tg al where st: "set_targets settings cycle approach travel N_AXIS
             (0, sys_position sys, mpos (sys_position sys), 0) = (k, pos, tg, al)"
    by (rule set_targets_cases)
  show ?case
  proof (cases "homing_wait approach cycle (sys_rt_exec_alarm sys) al pre")
    case (Wait_Polling lock1)
    from Suc.prems homing_passes_Polling_step[where mpos=mpos, OF st Wait_Polling]
    have ap: "ap = approach" and s1: "sys1 = sys\<lparr>sys_position := pos, homing_axis_lock := lock1,
                  planned := (tg, rate * sqrt (real k)) # planned sys, execute_sys_motion := True\<rparr>"
      by simp_all
    show ?thesis
      using homing_wait_append_Polling[OF Wait_Polling] homing_passes_Failed_step[where mpos=mpos, OF st]
      by (auto simp: ap s1)
  next
    case (Homing_Failed alarm lock)
    from Suc.prems homing_passes_Failed_step[where mpos=mpos, OF st Homing_Failed] show ?thesis by simp
  next
    case (Homing_Continue lock polls')
    let ?sys2 = "sys\<lparr>sys_position := pos, homing_axis_lock := lock,
                  planned := (tg, rate * sqrt (real k)) # planned sys, execute_sys_motion := True\<rparr>"
    let ?tr = "if \<not> approach then pulloff settings * HOMING_AXIS_LOCATE_SCALAR else pulloff settings"
    let ?rt = "if \<not> approach then feed_rate settings else seek_rate settings"
    from Suc.prems homing_passes_Continue_step[where mpos=mpos, OF st Homing_Continue]
    have "homing_passes u settings mpos cycle n (\<not> approach) ?tr ?rt ?sys2 polls'
            = Homing_Polling ap sys1" by simp
    from Suc.IH[OF this] have ih:
      "homed sys1 = homed sys" "sys_rt_exec_alarm sys1 = sys_rt_exec_alarm sys"
      "\<And>rest alarm lock.
        homing_wait ap cycle (sys_rt_exec_alarm sys) (homing_axis_lock sys1) rest
          = Homing_Failed alarm lock \<Longrightarrow>
        homing_passes u settings mpos cycle n (\<not> approach) ?tr ?rt ?sys2 (polls' @ rest)
          = Homing_Returned False (sys1\<lparr>homing_axis_lock := lock, sys_rt_exec_alarm := alarm\<rparr>)"
      by simp_all
    have "homing_passes u settings mpos cycle (Suc n) approach travel rate sys (pre @ rest)
            = homing_passes u settings mpos cycle n (\<not> approach) ?tr ?rt ?sys2 (polls' @ rest)" for rest
      using homing_passes_Continue_step[where mpos=mpos, OF st homing_wait_append_Continue[OF Homing_Continue]] .
    with ih show ?thesis by simp
  qed
qed

lemma homing_passes_True:
  "homing_passes u settings mpos cycle n approach travel rate sys polls = Homing_Returned True sys' \<Longrightarrow>
     homed sys' = homed sys OR cycle \<and>
     (\<exists>pos. length pos = length (sys_position sys) \<and>
        sys_position sys' = limits_set_machine_positions u settings cycle True pos)"
proof (induction n arbitrary: approach travel rate sys polls)
  case 0
  obtain k pos tg al where st: "set_targets settings cycle approach travel N_AXIS
             (0, sys_position sys, mpos (sys_position sys), 0) = (k, pos, tg, al)"
    and len: "length pos = length (sys_position sys)"
    by (rule set_targets_cases)
  show ?case
  proof (cases "homing_wait approach cycle (sys_rt_exec_alarm sys) al polls")
    case (Wait_Polling lock)
    from 0 homing_passes_Polling_step[where mpos=mpos, OF st Wait_Polling] show ?thesis by simp
  next
    case (Homing_Failed alarm lock)
    from 0 homing_passes_Failed_step[where mpos=mpos, OF st Homing_Failed] show ?thesis by simp
  next
    case (Homing_Continue lock polls')
    from 0 homing_passes_Done_step[where mpos=mpos, OF st Homing_Continue] len show ?thesis by auto
  qed
next
  case (Suc n)
  obtain k pos tg al where st: "set_targets settings cycle approach travel N_AXIS
             (0, sys_position sys, mpos (sys_position sys), 0) = (k, pos, tg, al)"
    and len: "length pos = length (sys_position sys)"
    by (rule set_targets_cases)
  show ?case
  proof (cases "homing_wait approach cycle (sys_rt_exec_alarm sys) al polls")
    case (Wait_Polling lock)
    from Suc.prems homing_passes_Polling_step[where mpos=mpos, OF st Wait_Polling] show ?thesis by simp
  next
    case (Homing_Failed alarm lock)
    from Suc.prems homing_passes_Failed_step[where mpos=mpos, OF st Homing_Failed] show ?thesis by simp
  next
    case (Homing_Continue lock polls')
    from Suc.prems homing_passes_Continue_step[where mpos=mpos, OF st Homing_Continue]
    have "homing_passes u settings mpos cycle n (\<not> approach)
             (if \<not> approach then pulloff settings * HOMING_AXIS_LOCATE_SCALAR else pulloff settings)
             (if \<not> approach then feed_rate settings else seek_rate settings)
             (sys\<lparr>sys_position := pos, homing_axis_lock := lock,
                  planned := (tg, rate * sqrt (real k)) # planned sys, execute_sys_motion := True\<rparr>)
             polls' = Homing_Returned True sys'" by simp
    from Suc.IH[OF this] len show ?thesis by simp
  qed
qed

text \<open>
  A cycle that is not refused on entry is polling in its first pass, an approach,
  before the first sample.
\<close>

lemma limits_homing_cycle_starts:
  assumes "\<not> aborted sys"
  shows "\<exists>sys1. limits_homing_cycle u settings mpos cycle sys [] = Homing_Polling True sys1"
proof -
  obtain k pos tg al where st: "set_targets settings cycle True (search_travel settings cycle N_AXIS 0)
             N_AXIS (0, sys_position sys, mpos (sys_position sys), 0) = (k, pos, tg, al)"
    by (rule set_targets_cases)
  have "homing_wait True cycle (sys_rt_exec_alarm sys) al [] = Wait_Polling al" by simp
  from homing_passes_Polling_step[where mpos=mpos, OF st this] assms
  show ?thesis by (simp add: limits_homing_cycle_def)
qed

text \<open>
  Runs of the cycle for the X axis: still approaching after one sample, switch
  never found, found and pulled off, reset during the retract pass.
\<close>

lemmas homing_run_simps = example_settings_def example_sys_def poll_idle_def example_mpos_def
  example_unspecified_def
  limits_homing_cycle_def homing_passes.simps Let_def N_AXIS_def eval_nat_numeral bit_istrue_def
  bitn_def homing_exit_alarm_def AXES_BITMASK_def HOMING_AXIS_SEARCH_SCALAR_def
  HOMING_AXIS_LOCATE_SCALAR_def limits_set_machine_positions_def lroundf_def

lemma homing_run_polling:
  "limits_homing_cycle example_unspecified example_settings example_mpos 1 example_sys [poll_idle]
   = Homing_Polling True (example_sys\<lparr>execute_sys_motion := True, homing_axis_lock := 1,
        sys_position := [0, 20, 30], planned := [([300, 2 / 25, 3 / 25], 500)]\<rparr>)"
  by (simp add: homing_run_simps)

lemma homing_run_not_found:
  "limits_homing_cycle example_unspecified example_settings example_mpos 1 example_sys
     ([poll_idle] @ poll_idle\<lparr>exec_cycle_complete := True\<rparr> # [])
   = Homing_Returned False (example_sys\<lparr>execute_sys_motion := True, homing_axis_lock := 1,
        sys_position := [0, 20, 30], sys_rt_exec_alarm := Alarm_HomingFailApproach,
        planned := [([300, 2 / 25, 3 / 25], 500)]\<rparr>)"
  by (simp add: homing_run_simps)

lemma homing_run_success:
  "limits_homing_cycle example_unspecified example_settings example_mpos 1 example_sys
     [poll_idle, poll_idle\<lparr>limit_state := 1\<rparr>, poll_idle\<lparr>exec_cycle_complete := True\<rparr>]
   = Homing_Returned True (example_sys\<lparr>homed := 3, homing_axis_lock := 1,
        sys_position := [- 250, 20, 30],
        planned := [([- 1, 2 / 25, 3 / 25], 500), ([300, 2 / 25, 3 / 25], 500)]\<rparr>)"
  by (simp add: homing_run_simps)

lemma homing_run_retract_polling:
  "limits_homing_cycle example_unspecified example_settings example_mpos 1 example_sys
     [poll_idle, poll_idle\<lparr>limit_state := 1\<rparr>]
   = Homing_Polling False (example_sys\<lparr>execute_sys_motion := True, homing_axis_lock := 1,
        sys_position := [0, 20, 30],
        planned := [([- 1, 2 / 25, 3 / 25], 500), ([300, 2 / 25, 3 / 25], 500)]\<rparr>)"
  by (simp add: homing_run_simps)

lemma homing_run_reset_in_retract:
  "limits_homing_cycle example_unspecified example_settings example_mpos 1 example_sys
     [poll_idle, poll_idle\<lparr>limit_state := 1\<rparr>, poll_idle\<lparr>limit_state := 1, exec_reset := True\<rparr>]
   = Homing_Returned False (example_sys\<lparr>execute_sys_motion := True, homing_axis_lock := 1,
        sys_position := [0, 20, 30], sys_rt_exec_alarm := Alarm_FailPulloff,
        planned := [([- 1, 2 / 25, 3 / 25], 500), ([300, 2 / 25, 3 / 25], 500)]\<rparr>)"
  by (simp add: homing_run_simps)

text \<open>
  C4, as the code has it. While the cycle is polling in a pass, a sample with a reset,
  an open safety door, the approach motion completed (in an approach pass) or the
  motion completed with a limit switch of the cycle still engaged (in a retract
  pass) makes the cycle return false at that sample, with \<^verbatim>\<open>sys.homed.mask\<close> as it
  was before the cycle, and with one alarm: that of the last test of the exit
  routine that applies, in the order reset, safety door, limit switch engaged in a
  retract pass, approach motion completed. So a failure that comes alone reports
  its own reason; a reset or an open door in a retract pass with a switch still
  engaged reports \<open>Alarm_FailPulloff\<close>, and one at the sample at which the
  approach motion completes reports \<open>Alarm_HomingFailApproach\<close>. Every run that
  returns false, for these or any other reason, leaves \<^verbatim>\<open>sys.homed.mask\<close> as it was.
\<close>

theorem limits_homing_cycle_failure:
  "(limits_homing_cycle u settings mpos cycle sys pre = Homing_Polling approach sys1 \<and>
    (exec_reset p \<or> exec_safety_door p \<or> (approach \<and> exec_cycle_complete p) \<or>
     (\<not> approach \<and> exec_cycle_complete p \<and> limit_state p AND cycle \<noteq> 0))
    \<longrightarrow> (\<exists>sys'. limits_homing_cycle u settings mpos cycle sys (pre @ p # rest)
                   = Homing_Returned False sys' \<and>
                 homed sys' = homed sys \<and>
                 sys_rt_exec_alarm sys' =
                   (if approach \<and> exec_cycle_complete p then Alarm_HomingFailApproach
                    else if \<not> approach \<and> limit_state p AND cycle \<noteq> 0 then Alarm_FailPulloff
                    else if exec_safety_door p then Alarm_HomingFailDoor
                    else Alarm_HomingFailReset))) \<and>
   (limits_homing_cycle u settings mpos cycle sys polls = Homing_Returned False sys2
    \<longrightarrow> homed sys2 = homed sys)"
proof (intro conjI impI)
  assume "limits_homing_cycle u settings mpos cycle sys polls = Homing_Returned False sys2"
  then show "homed sys2 = homed sys"
    using homing_passes_False by (auto simp: limits_homing_cycle_def split: if_splits)
next
  assume a: "limits_homing_cycle u settings mpos cycle sys pre = Homing_Polling approach sys1 \<and>
    (exec_reset p \<or> exec_safety_door p \<or> (approach \<and> exec_cycle_complete p) \<or>
     (\<not> approach \<and> exec_cycle_complete p \<and> limit_state p AND cycle \<noteq> 0))"
  let ?alarm = "if approach \<and> exec_cycle_complete p then Alarm_HomingFailApproach
                else if \<not> approach \<and> limit_state p AND cycle \<noteq> 0 then Alarm_FailPulloff
                else if exec_safety_door p then Alarm_HomingFailDoor
                else Alarm_HomingFailReset"
  from a have na: "\<not> aborted sys" by (auto simp: limits_homing_cycle_def split: if_splits)
  with a have polling: "homing_passes u settings mpos cycle (2 * locate_cycles settings + 1) True
             (search_travel settings cycle N_AXIS 0) (seek_rate settings) sys pre
           = Homing_Polling approach sys1"
    by (simp add: limits_homing_cycle_def)
  from a homing_wait_fails[of p approach cycle "sys_rt_exec_alarm sys" "homing_axis_lock sys1" rest]
  obtain lock where w: "homing_wait approach cycle (sys_rt_exec_alarm sys) (homing_axis_lock sys1) (p # rest)
      = Homing_Failed ?alarm lock" by blast
  from homing_passes_Polling[OF polling] w have
    h: "homed sys1 = homed sys"
    and r: "homing_passes u settings mpos cycle (2 * locate_cycles settings + 1) True
             (search_travel settings cycle N_AXIS 0) (seek_rate settings) sys (pre @ p # rest)
           = Homing_Returned False (sys1\<lparr>homing_axis_lock := lock, sys_rt_exec_alarm := ?alarm\<rparr>)"
    by blast+
  from r na have "limits_homing_cycle u settings mpos cycle sys (pre @ p # rest)
      = Homing_Returned False (sys1\<lparr>homing_axis_lock := lock, sys_rt_exec_alarm := ?alarm\<rparr>)"
    by (simp add: limits_homing_cycle_def)
  moreover have "homed (sys1\<lparr>homing_axis_lock := lock, sys_rt_exec_alarm := ?alarm\<rparr>) = homed sys"
    using h by simp
  moreover have "sys_rt_exec_alarm (sys1\<lparr>homing_axis_lock := lock, sys_rt_exec_alarm := ?alarm\<rparr>) = ?alarm"
    by simp
  ultimately show "\<exists>sys'. limits_homing_cycle u settings mpos cycle sys (pre @ p # rest)
                   = Homing_Returned False sys' \<and>
                 homed sys' = homed sys \<and> sys_rt_exec_alarm sys' = ?alarm"
    by blast
qed

theorem limits_homing_cycle_failure_witness:
  "limits_homing_cycle example_unspecified example_settings example_mpos 1 example_sys [poll_idle]
   = Homing_Polling True (example_sys\<lparr>execute_sys_motion := True, homing_axis_lock := 1,
        sys_position := [0, 20, 30], planned := [([300, 2 / 25, 3 / 25], 500)]\<rparr>) \<and>
   exec_cycle_complete (poll_idle\<lparr>exec_cycle_complete := True\<rparr>) \<and>
   limits_homing_cycle example_unspecified example_settings example_mpos 1 example_sys
     ([poll_idle] @ poll_idle\<lparr>exec_cycle_complete := True\<rparr> # [])
   = Homing_Returned False (example_sys\<lparr>execute_sys_motion := True, homing_axis_lock := 1,
        sys_position := [0, 20, 30], sys_rt_exec_alarm := Alarm_HomingFailApproach,
        planned := [([300, 2 / 25, 3 / 25], 500)]\<rparr>) \<and>
   homed (example_sys\<lparr>execute_sys_motion := True, homing_axis_lock := 1,
        sys_position := [0, 20, 30], sys_rt_exec_alarm := Alarm_HomingFailApproach,
        planned := [([300, 2 / 25, 3 / 25], 500)]\<rparr>) = homed example_sys \<and>
   sys_rt_exec_alarm (example_sys\<lparr>execute_sys_motion := True, homing_axis_lock := 1,
        sys_position := [0, 20, 30], sys_rt_exec_alarm := Alarm_HomingFailApproach,
        planned := [([300, 2 / 25, 3 / 25], 500)]\<rparr>) = Alarm_HomingFailApproach"
proof -
  have e: "exec_cycle_complete (poll_idle\<lparr>exec_cycle_complete := True\<rparr>)" by simp
  from limits_homing_cycle_failure[of example_unspecified example_settings example_mpos 1 example_sys
      "[poll_idle]" True "example_sys\<lparr>execute_sys_motion := True, homing_axis_lock := 1,
        sys_position := [0, 20, 30], planned := [([300, 2 / 25, 3 / 25], 500)]\<rparr>"
      "poll_idle\<lparr>exec_cycle_complete := True\<rparr>" "[]"]
    homing_run_polling e
  obtain sys' where
    "limits_homing_cycle example_unspecified example_settings example_mpos 1 example_sys
       ([poll_idle] @ poll_idle\<lparr>exec_cycle_complete := True\<rparr> # []) = Homing_Returned False sys'"
    and "homed sys' = homed example_sys"
    and "sys_rt_exec_alarm sys' = Alarm_HomingFailApproach"
    by auto
  with homing_run_not_found homing_run_polling e show ?thesis by simp
qed

text \<open>
  A reset issued during the retract pass, while the limit switch is still engaged,
  is reported as \<open>Alarm_FailPulloff\<close>, not as \<open>Alarm_HomingFailReset\<close>.
\<close>

theorem homing_reset_reason_counterexample:
  "limits_homing_cycle example_unspecified example_settings example_mpos 1 example_sys
     [poll_idle, poll_idle\<lparr>limit_state := 1\<rparr>]
   = Homing_Polling False (example_sys\<lparr>execute_sys_motion := True, homing_axis_lock := 1,
        sys_position := [0, 20, 30],
        planned := [([- 1, 2 / 25, 3 / 25], 500), ([300, 2 / 25, 3 / 25], 500)]\<rparr>) \<and>
   limits_homing_cycle example_unspecified example_settings example_mpos 1 example_sys
     [poll_idle, poll_idle\<lparr>limit_state := 1\<rparr>, poll_idle\<lparr>limit_state := 1, exec_reset := True\<rparr>]
   = Homing_Returned False (example_sys\<lparr>execute_sys_motion := True, homing_axis_lock := 1,
        sys_position := [0, 20, 30], sys_rt_exec_alarm := Alarm_FailPulloff,
        planned := [([- 1, 2 / 25, 3 / 25], 500), ([300, 2 / 25, 3 / 25], 500)]\<rparr>) \<and>
   exec_reset (poll_idle\<lparr>limit_state := 1, exec_reset := True\<rparr>) \<and>
   sys_rt_exec_alarm (example_sys\<lparr>execute_sys_motion := True, homing_axis_lock := 1,
        sys_position := [0, 20, 30], sys_rt_exec_alarm := Alarm_FailPulloff,
        planned := [([- 1, 2 / 25, 3 / 25], 500), ([300, 2 / 25, 3 / 25], 500)]\<rparr>)
     \<noteq> Alarm_HomingFailReset"
  using homing_run_retract_polling homing_run_reset_in_retract by simp

lemma bit_istrue_or:
  "bit_istrue c b \<Longrightarrow> bit_istrue (h OR c) b"
  unfolding bit_istrue_def
  by (metis bit.conj_disj_distrib2 or_eq_0_iff)

text \<open>
  C5, as the code has it. A run of \<^verbatim>\<open>limits_homing_cycle\<close> that returns true sets the
  machine position of every axis of the requested group to 0 when
  \<^verbatim>\<open>force_set_origin\<close> is configured; otherwise to the \<^verbatim>\<open>lroundf\<close> of
  \<open>max_travel + pulloff\<close> in steps when the axis's bit is set in the homing
  direction mask, and to the \<^verbatim>\<open>lroundf\<close> of \<open>- pulloff\<close> in steps when it is not;
  and it marks the axis homed. The \<^verbatim>\<open>lroundf\<close> is the rounded value where that
  is in the range of \<^verbatim>\<open>int32_t\<close>, and what the C library returns where it is not.
\<close>

theorem limits_homing_cycle_success:
  assumes "limits_homing_cycle u settings mpos cycle sys polls = Homing_Returned True sys'"
    and "idx < N_AXIS" and "length (sys_position sys) = N_AXIS"
    and "bit_istrue cycle (bitn idx)"
  shows "sys_position sys' ! idx =
           (if force_set_origin settings then 0
            else if bit_istrue (homing_dir_mask settings) (bitn idx)
                 then lroundf u ((max_travel settings ! idx + pulloff settings)
                        * steps_per_mm settings ! idx)
                 else lroundf u (- pulloff settings * steps_per_mm settings ! idx)) \<and>
         bit_istrue (homed sys') (bitn idx)"
proof -
  from assms(1) have run: "homing_passes u settings mpos cycle (2 * locate_cycles settings + 1) True
             (search_travel settings cycle N_AXIS 0) (seek_rate settings) sys polls
           = Homing_Returned True sys'"
    by (simp add: limits_homing_cycle_def split: if_splits)
  from homing_passes_True[OF run] obtain pos where
    h: "homed sys' = homed sys OR cycle" and len: "length pos = length (sys_position sys)"
    and pos: "sys_position sys' = limits_set_machine_positions u settings cycle True pos"
    by blast
  have "idx < length pos" using len assms(2,3) by simp
  moreover have "cycle AND bitn idx \<noteq> 0" using assms(4) by (simp add: bit_istrue_def)
  ultimately have "sys_position sys' ! idx =
           (if force_set_origin settings then 0
            else if bit_istrue (homing_dir_mask settings) (bitn idx)
                 then lroundf u ((max_travel settings ! idx + pulloff settings)
                        * steps_per_mm settings ! idx)
                 else lroundf u (- pulloff settings * steps_per_mm settings ! idx))"
    using limits_set_machine_positions_inside[OF assms(2), of pos cycle u settings True] pos by simp
  moreover have "bit_istrue (homed sys') (bitn idx)"
    using h assms(4) by (simp add: bit_istrue_or)
  ultimately show ?thesis by simp
qed

theorem limits_homing_cycle_success_witness:
  "limits_homing_cycle example_unspecified example_settings example_mpos 1 example_sys
     [poll_idle, poll_idle\<lparr>limit_state := 1\<rparr>, poll_idle\<lparr>exec_cycle_complete := True\<rparr>]
   = Homing_Returned True (example_sys\<lparr>homed := 3, homing_axis_lock := 1,
        sys_position := [- 250, 20, 30],
        planned := [([- 1, 2 / 25, 3 / 25], 500), ([300, 2 / 25, 3 / 25], 500)]\<rparr>) \<and>
   0 < N_AXIS \<and> length (sys_position example_sys) = N_AXIS \<and> bit_istrue 1 (bitn 0) \<and>
   sys_position (example_sys\<lparr>homed := 3, homing_axis_lock := 1, sys_position := [- 250, 20, 30],
        planned := [([- 1, 2 / 25, 3 / 25], 500), ([300, 2 / 25, 3 / 25], 500)]\<rparr>) ! 0
     = lroundf example_unspecified (- pulloff example_settings * steps_per_mm example_settings ! 0) \<and>
   lroundf example_unspecified (- pulloff example_settings * steps_per_mm example_settings ! 0)
     = - 250 \<and>
   bit_istrue (homed (example_sys\<lparr>homed := 3, homing_axis_lock := 1, sys_position := [- 250, 20, 30],
        planned := [([- 1, 2 / 25, 3 / 25], 500), ([300, 2 / 25, 3 / 25], 500)]\<rparr>)) (bitn 0)"
proof -
  have a: "0 < N_AXIS" "length (sys_position example_sys) = N_AXIS" "bit_istrue 1 (bitn 0)"
    by (simp_all add: N_AXIS_def example_sys_def bit_istrue_def bitn_def)
  have b: "\<not> force_set_origin example_settings"
    "\<not> bit_istrue (homing_dir_mask example_settings) (bitn 0)"
    by (simp_all add: example_settings_def bit_istrue_def bitn_def)
  have v: "lroundf example_unspecified (- pulloff example_settings * steps_per_mm example_settings ! 0)
     = - 250"
    by (simp add: example_settings_def lroundf_def)
  from limits_homing_cycle_success[OF homing_run_success a] a b v homing_run_success
  show ?thesis by simp
qed

text \<open>
  An axis whose homing direction bit is clear is committed to \<open>- pulloff\<close> in steps,
  which is neither \<open>max_travel + pulloff\<close> nor \<open>max_travel - pulloff\<close> in steps.
\<close>

theorem homing_position_counterexample:
  "limits_homing_cycle example_unspecified example_settings example_mpos 1 example_sys
     [poll_idle, poll_idle\<lparr>limit_state := 1\<rparr>, poll_idle\<lparr>exec_cycle_complete := True\<rparr>]
   = Homing_Returned True (example_sys\<lparr>homed := 3, homing_axis_lock := 1,
        sys_position := [- 250, 20, 30],
        planned := [([- 1, 2 / 25, 3 / 25], 500), ([300, 2 / 25, 3 / 25], 500)]\<rparr>) \<and>
   \<not> force_set_origin example_settings \<and> bit_istrue 1 (bitn 0) \<and>
   sys_position (example_sys\<lparr>homed := 3, homing_axis_lock := 1, sys_position := [- 250, 20, 30],
        planned := [([- 1, 2 / 25, 3 / 25], 500), ([300, 2 / 25, 3 / 25], 500)]\<rparr>) ! 0 = - 250 \<and>
   lroundf example_unspecified ((max_travel example_settings ! 0 + pulloff example_settings)
           * steps_per_mm example_settings ! 0) = - 49750 \<and>
   lroundf example_unspecified ((max_travel example_settings ! 0 - pulloff example_settings)
           * steps_per_mm example_settings ! 0) = - 50250 \<and>
   (- 250 :: i32) \<noteq> - 49750 \<and> (- 250 :: i32) \<noteq> - 50250"
  using homing_run_success
  by (simp add: example_settings_def bit_istrue_def bitn_def lroundf_def)


section \<open>Properties of the synchronized pulse corrector\<close>





lemma sync_cycles_per_tick_zero:
  "sync_cycles_per_tick 0 step_delta cpt min_cpt = Inl DivideByZero"
  by (simp add: sync_cycles_per_tick_def)


lemma sync_correct_zero_count:
  assumes "step_count stepper = 0"
  shows "\<exists>e. sync_correct f tv c stepper drv = Inl e"
  using assms
  by (auto simp: sync_correct_def Let_def sync_cycles_per_tick_zero split: if_splits sum.splits prod.splits)

text \<open>The stored minimum is in the range of \<^verbatim>\<open>int32_t\<close>.\<close>

lemma settings_min_cycles_per_tick_range:
  "settings_min_cycles_per_tick f pm pd < 2 ^ 31"
proof -
  have f: "unat (f div 1000000) \<le> 4294"
  proof -
    have "unat f < 2 ^ 32" using unsigned_less[of f, where ?'a=nat] by simp
    then have "unat f div 1000000 \<le> 4294" by simp
    then show ?thesis by (simp add: unat_div)
  qed
  have a: "unat pm \<le> 255" using unsigned_less[of pm, where ?'a=nat] by simp
  have b: "unat pd \<le> 255" using unsigned_less[of pd, where ?'a=nat] by simp
  have ua: "unat (ucast pm :: u32) = unat pm"
    using a by (simp add: unsigned_ucast_eq take_bit_nat_eq_self)
  have ub: "unat (ucast pd :: u32) = unat pd"
    using b by (simp add: unsigned_ucast_eq take_bit_nat_eq_self)
  have s: "unat ((ucast pm :: u32) * 2 + ucast pd) = unat pm * 2 + unat pd"
  proof -
    have "unat ((ucast pm :: u32) * 2 + ucast pd) = (unat pm * 2 + unat pd) mod 2 ^ 32"
      by (simp add: unat_word_ariths ua ub mod_simps)
    also have "\<dots> = unat pm * 2 + unat pd" using a b by simp
    finally show ?thesis .
  qed
  have "unat (f div 1000000) * (unat pm * 2 + unat pd) \<le> 4294 * 765"
    using f a b by (intro mult_mono) simp_all
  then have p: "unat (f div 1000000) * (unat pm * 2 + unat pd) < 2 ^ 31" by simp
  have "unat (settings_min_cycles_per_tick f pm pd)
      = (unat (f div 1000000) * (unat pm * 2 + unat pd)) mod 2 ^ 32"
    unfolding settings_min_cycles_per_tick_def by (simp add: unat_word_ariths(2) s)
  also have "\<dots> = unat (f div 1000000) * (unat pm * 2 + unat pd)" using p by simp
  finally have "unat (settings_min_cycles_per_tick f pm pd) < 2 ^ 31" using p by simp
  then show ?thesis by (simp add: word_less_nat_alt)
qed

lemmas exd = example_encoder_def example_data_def example_tracker_def example_drv_def example_stepper_def
  example_pid_def example_cfg_def

lemma stepperPulseStartSynchronized_cruising:
  assumes "\<not> new_block stepper"
    and "segment_id (spindle_tracker drv) \<noteq> seg_id (exec_segment stepper)"
    and "cruising (exec_segment stepper)"
  shows "stepperPulseStartSynchronized pulse_delay f tv c stepper drv =
             (case sync_correct f tv c stepper
                     ((sync_step_pulse pulse_delay stepper drv)\<lparr>spindle_tracker :=
                        (spindle_tracker drv)\<lparr>segment_id := seg_id (exec_segment stepper)\<rparr>\<rparr>) of
                Inl e \<Rightarrow> Inl e
              | Inr (stepper', drv4) \<Rightarrow>
                  Inr (stepper',
                       drv4\<lparr>spindle_tracker :=
                              (spindle_tracker drv4)\<lparr>prev_pos := target_position (exec_segment stepper)\<rparr>\<rparr>))"
proof -
  have tr: "spindle_tracker (sync_step_pulse pulse_delay stepper drv) = spindle_tracker drv"
    by (simp add: sync_step_pulse_def)
  show ?thesis using assms
    by (simp add: stepperPulseStartSynchronized_def Let_def tr)
qed


text \<open>With a step count of zero the call on a cruising segment boundary never returns a value.\<close>

lemma stepperPulseStartSynchronized_zero_count:
  assumes "\<not> new_block stepper"
    and "segment_id (spindle_tracker drv) \<noteq> seg_id (exec_segment stepper)"
    and "cruising (exec_segment stepper)"
    and "step_count stepper = 0"
  shows "\<exists>e. stepperPulseStartSynchronized pulse_delay f tv c stepper drv = Inl e"
proof -
  let ?drv3 = "(sync_step_pulse pulse_delay stepper drv)\<lparr>spindle_tracker :=
                        (spindle_tracker drv)\<lparr>segment_id := seg_id (exec_segment stepper)\<rparr>\<rparr>"
  from sync_correct_zero_count[OF assms(4)] obtain e where
    "sync_correct f tv c stepper ?drv3 = Inl e" by blast
  then show ?thesis
    using stepperPulseStartSynchronized_cruising[OF assms(1,2,3), of pulse_delay f tv c] by simp
qed

lemmas sync_run_simps = exd stepperPulseStartSynchronized_def sync_step_pulse_def sync_new_block_def sync_correct_def spindleGetData_def Let_def counter_diff_def pid_def limit_error_def
      float_to_int32_def sync_cycles_per_tick_def stepperCyclesPerTick_def



text \<open>
  C1. The specification has the correction skipped when the segment's step count
  is zero. The code divides by the step count without a test: at a cruising
  segment boundary with a step count of zero the call reaches the division by
  zero.
\<close>

theorem sync_zero_step_count_fault:
  "new_block (example_stepper\<lparr>step_count := 0, exec_segment := (exec_segment example_stepper)\<lparr>n_step := 1\<rparr>\<rparr>) = False \<and>
   cruising (exec_segment (example_stepper\<lparr>step_count := 0, exec_segment := (exec_segment example_stepper)\<lparr>n_step := 1\<rparr>\<rparr>)) \<and>
   segment_id (spindle_tracker example_drv) \<noteq> seg_id (exec_segment (example_stepper\<lparr>step_count := 0, exec_segment := (exec_segment example_stepper)\<lparr>n_step := 1\<rparr>\<rparr>)) \<and>
   step_count (example_stepper\<lparr>step_count := 0, exec_segment := (exec_segment example_stepper)\<lparr>n_step := 1\<rparr>\<rparr>) = 0 \<and>
   stepperPulseStartSynchronized False 48000000 4000 8 (example_stepper\<lparr>step_count := 0, exec_segment := (exec_segment example_stepper)\<lparr>n_step := 1\<rparr>\<rparr>) example_drv
     = Inl DivideByZero"
  by (simp add: sync_run_simps)


section \<open>Properties of the encoder and of the RPM regulator\<close>





lemma spindleGetData_ignores_error:
  "spindleGetData request timer_value counter pid_enabled (enc\<lparr>enc_error := b\<rparr>) data
   = spindleGetData request timer_value counter pid_enabled enc data"
  by (cases request) (simp_all add: spindleGetData_def Let_def spindle_calc_rpm_def)

text \<open>
  C7, as the code has it. An index event sets the encoder error flag to whether the
  pulse count since the previous index event, as the handler computes it, differs
  from \<open>ppr\<close>: true at every offending event, false at every other one. The
  handler counts the event and leaves the stepper timer and the pulse start
  function alone, so it does not stop motion; the control callback is called only
  for the flags of \<^verbatim>\<open>CONTROL_MASK\<close>. \<^verbatim>\<open>spindleGetData\<close> does not read the error
  flag: its result is the same whatever the flag is.
\<close>

theorem index_event_error_flag:
  assumes "iflags AND RPM_INDEX_BIT \<noteq> 0"
    and "CONTROL_IRQHandler RPM_INDEX_BIT CONTROL_MASK iflags timer_value counter drv = (drv', called)"
  shows "enc_error (spindle_encoder drv')
           = (pulses_since_index counter (spindle_encoder drv) \<noteq> ppr (spindle_encoder drv)) \<and>
         index_count (spindle_data drv') = index_count (spindle_data drv) + 1 \<and>
         stepper_timer_enabled drv' = stepper_timer_enabled drv \<and>
         stepper_timer_load drv' = stepper_timer_load drv \<and>
         pulse_start drv' = pulse_start drv \<and>
         called = (iflags AND CONTROL_MASK \<noteq> 0) \<and>
         spindleGetData request tv cv pid_enabled ((spindle_encoder drv')\<lparr>enc_error := b\<rparr>) data
           = spindleGetData request tv cv pid_enabled (spindle_encoder drv') data"
  using assms
  by (auto simp: CONTROL_IRQHandler_def spindle_index_event_def Let_def spindleGetData_ignores_error)

lemma index_event_run:
  "CONTROL_IRQHandler 1 6 1 3000 59 example_drv
   = (example_drv\<lparr>spindle_encoder := example_encoder\<lparr>timer_value_index := 3000,
                         enc_error := True, pulse_counter_index := 59\<rparr>,
                    rpm_counter_ccr0 := 63,
                    spindle_data := example_data\<lparr>index_count := 4\<rparr>\<rparr>, False)"
  by (simp add: exd CONTROL_IRQHandler_def spindle_index_event_def Let_def pulses_since_index_def
      counter_diff_def)

theorem index_event_error_flag_witness:
  "(1 :: u8) AND 1 \<noteq> 0 \<and>
   CONTROL_IRQHandler 1 6 1 3000 59 example_drv
   = (example_drv\<lparr>spindle_encoder := example_encoder\<lparr>timer_value_index := 3000,
                         enc_error := True, pulse_counter_index := 59\<rparr>,
                    rpm_counter_ccr0 := 63,
                    spindle_data := example_data\<lparr>index_count := 4\<rparr>\<rparr>, False) \<and>
   pulses_since_index 59 (spindle_encoder example_drv) \<noteq> ppr (spindle_encoder example_drv) \<and>
   enc_error (spindle_encoder (example_drv\<lparr>spindle_encoder := example_encoder\<lparr>timer_value_index := 3000,
                         enc_error := True, pulse_counter_index := 59\<rparr>,
                    rpm_counter_ccr0 := 63,
                    spindle_data := example_data\<lparr>index_count := 4\<rparr>\<rparr>)) \<and>
   stepper_timer_enabled (example_drv\<lparr>spindle_encoder := example_encoder\<lparr>timer_value_index := 3000,
                         enc_error := True, pulse_counter_index := 59\<rparr>,
                    rpm_counter_ccr0 := 63,
                    spindle_data := example_data\<lparr>index_count := 4\<rparr>\<rparr>)
     = stepper_timer_enabled example_drv"
proof -
  have h: "(1 :: u8) AND 1 \<noteq> 0" by simp
  have m: "pulses_since_index 59 (spindle_encoder example_drv) \<noteq> ppr (spindle_encoder example_drv)"
    by (simp add: exd pulses_since_index_def counter_diff_def)
  from index_event_error_flag[OF h index_event_run] h m index_event_run
  show ?thesis by simp
qed

text \<open>
  After an offending index event the next RPM query and the next position query
  return what they return with the flag cleared: the fault is not surfaced.
\<close>

theorem index_error_not_reported_counterexample:
  "CONTROL_IRQHandler 1 6 1 3000 59 example_drv
   = (example_drv\<lparr>spindle_encoder := example_encoder\<lparr>timer_value_index := 3000,
                         enc_error := True, pulse_counter_index := 59\<rparr>,
                    rpm_counter_ccr0 := 63,
                    spindle_data := example_data\<lparr>index_count := 4\<rparr>\<rparr>, False) \<and>
   pulses_since_index 59 (spindle_encoder example_drv) \<noteq> ppr (spindle_encoder example_drv) \<and>
   spindleGetData SpindleData_RPM 2500 61 False
       (example_encoder\<lparr>timer_value_index := 3000, enc_error := True, pulse_counter_index := 59\<rparr>)
       (example_data\<lparr>index_count := 4\<rparr>)
     = spindleGetData SpindleData_RPM 2500 61 False
         (example_encoder\<lparr>timer_value_index := 3000, enc_error := False, pulse_counter_index := 59\<rparr>)
         (example_data\<lparr>index_count := 4\<rparr>) \<and>
   spindleGetData SpindleData_AngularPosition 2500 61 False
       (example_encoder\<lparr>timer_value_index := 3000, enc_error := True, pulse_counter_index := 59\<rparr>)
       (example_data\<lparr>index_count := 4\<rparr>)
     = spindleGetData SpindleData_AngularPosition 2500 61 False
         (example_encoder\<lparr>timer_value_index := 3000, enc_error := False, pulse_counter_index := 59\<rparr>)
         (example_data\<lparr>index_count := 4\<rparr>)"
  by (simp add: exd CONTROL_IRQHandler_def spindle_index_event_def spindleGetData_def Let_def
      pulses_since_index_def counter_diff_def spindle_calc_rpm_def)

text \<open>
  C9, as the code has it. Every control tick in state \<open>Pending\<close> returns, with the
  tick counted while fewer than 500 have been, and moves the regulator to \<open>Active\<close>
  exactly when the settling window has elapsed (\<open>pid_count\<close> has reached 500) and
  more than 2 index events have been seen; when either is missing the regulator
  stays \<open>Pending\<close>. This is so also at the end of a sample period with an averaged
  tick count of 0, where the RPM stored is not finite. \<open>SPINDLE_PID_SAMPLE_RATE\<close>,
  by which the handler divides, is not 0.
\<close>

theorem regulator_pending_step:
  assumes "pid_state drv = PIDState_Pending" and "sample_rate \<noteq> 0"
  shows "\<exists>drv'. SysTick_Handler sample_rate pwm_value drv = Inr drv' \<and>
           pid_state drv' =
             (if \<not> pid_count drv < 500 \<and> index_count (spindle_data drv) > 2
              then PIDState_Active else PIDState_Pending) \<and>
           pid_count drv' = (if pid_count drv < 500 then pid_count drv + 1 else pid_count drv)"
  using assms
  by (simp add: SysTick_Handler_def Let_def)

lemma regulator_run_window_only:
  "SysTick_Handler 5 example_pwm_value (example_drv\<lparr>spindle_data := example_data\<lparr>index_count := 2\<rparr>\<rparr>)
   = Inr (example_drv\<lparr>spindle_data := example_data\<lparr>index_count := 2\<rparr>, spid := 4, tpp_sum := 1000\<rparr>)"
  by (simp add: exd SysTick_Handler_def Let_def)

lemma regulator_run_index_only:
  "SysTick_Handler 5 example_pwm_value (example_drv\<lparr>pid_count := 10\<rparr>)
   = Inr (example_drv\<lparr>pid_count := 11, spid := 4, tpp_sum := 1000\<rparr>)"
  by (simp add: exd SysTick_Handler_def Let_def)

lemma regulator_run_both:
  "SysTick_Handler 5 example_pwm_value example_drv
   = Inr (example_drv\<lparr>pid_state := PIDState_Active, spid := 4, tpp_sum := 1000\<rparr>)"
  by (simp add: exd SysTick_Handler_def Let_def)

text \<open>
  The end of a sample period with no pulse timed in it: the handler stores an
  infinite RPM and goes on to \<open>Active\<close>.
\<close>

lemma regulator_run_period_end_stopped:
  "SysTick_Handler 5 example_pwm_value
     (example_drv\<lparr>spid := 1, tpp_sum := 0, spindle_encoder := example_encoder\<lparr>tpp := 0\<rparr>\<rparr>)
   = Inr (example_drv\<lparr>pid_state := PIDState_Active, spid := 5, tpp_sum := 0,
            spindle_encoder := example_encoder\<lparr>tpp := 0, enc_rpm := PlusInfinity\<rparr>\<rparr>)"
  by (simp add: exd SysTick_Handler_def Let_def spindle_calc_rpm_def)

theorem regulator_pending_step_witness:
  "pid_state example_drv = PIDState_Pending \<and> (5 :: u32) \<noteq> 0 \<and>
   SysTick_Handler 5 example_pwm_value example_drv
     = Inr (example_drv\<lparr>pid_state := PIDState_Active, spid := 4, tpp_sum := 1000\<rparr>) \<and>
   \<not> pid_count example_drv < 500 \<and> index_count (spindle_data example_drv) > 2 \<and>
   pid_state (example_drv\<lparr>pid_state := PIDState_Active, spid := 4, tpp_sum := 1000\<rparr>) = PIDState_Active \<and>
   pid_count (example_drv\<lparr>pid_state := PIDState_Active, spid := 4, tpp_sum := 1000\<rparr>)
     = pid_count example_drv"
proof -
  have p: "pid_state example_drv = PIDState_Pending" by (simp add: example_drv_def)
  have r: "(5 :: u32) \<noteq> 0" by simp
  have c: "\<not> pid_count example_drv < 500" "index_count (spindle_data example_drv) > 2"
    by (simp_all add: example_drv_def example_data_def)
  from regulator_pending_step[OF p r, of example_pwm_value] p r c regulator_run_both
  show ?thesis by simp
qed

text \<open>
  With the window elapsed and only 2 index events, and with 3 index events and
  the window not elapsed, the regulator stays \<open>Pending\<close>.
\<close>

theorem regulator_pending_counterexample:
  "pid_state (example_drv\<lparr>spindle_data := example_data\<lparr>index_count := 2\<rparr>\<rparr>) = PIDState_Pending \<and>
   \<not> pid_count (example_drv\<lparr>spindle_data := example_data\<lparr>index_count := 2\<rparr>\<rparr>) < 500 \<and>
   SysTick_Handler 5 example_pwm_value (example_drv\<lparr>spindle_data := example_data\<lparr>index_count := 2\<rparr>\<rparr>)
     = Inr (example_drv\<lparr>spindle_data := example_data\<lparr>index_count := 2\<rparr>, spid := 4, tpp_sum := 1000\<rparr>) \<and>
   pid_state (example_drv\<lparr>spindle_data := example_data\<lparr>index_count := 2\<rparr>, spid := 4, tpp_sum := 1000\<rparr>)
     = PIDState_Pending \<and>
   pid_state (example_drv\<lparr>pid_count := 10\<rparr>) = PIDState_Pending \<and>
   index_count (spindle_data (example_drv\<lparr>pid_count := 10\<rparr>)) \<ge> 3 \<and>
   SysTick_Handler 5 example_pwm_value (example_drv\<lparr>pid_count := 10\<rparr>)
     = Inr (example_drv\<lparr>pid_count := 11, spid := 4, tpp_sum := 1000\<rparr>) \<and>
   pid_state (example_drv\<lparr>pid_count := 11, spid := 4, tpp_sum := 1000\<rparr>) = PIDState_Pending"
  using regulator_run_window_only regulator_run_index_only
  by (simp add: example_drv_def example_data_def)


end
